theory Spec2Isabelle
  imports Main "HOL-Library.Sublist" "HOL-Library.AList"
begin

section \<open>Strings\<close>

text \<open>
  Strings are lists of 8-bit characters, read as the code units below 256 of the
  JavaScript strings of the extension. \<open>is_space\<close> is the class \<^verbatim>\<open>\s\<close> of the regular
  expressions (which is also what \<^verbatim>\<open>trim()\<close> removes) on these code units: tab, line feed,
  vertical tab, form feed, carriage return, space and no-break space.
\<close>

definition is_space :: "char \<Rightarrow> bool" where
  "is_space c = ((of_char c :: nat) \<in> {9, 10, 11, 12, 13, 32, 160})"

definition trim :: "string \<Rightarrow> string" where
  "trim s = rev (dropWhile is_space (rev (dropWhile is_space s)))"

text \<open>\<^verbatim>\<open>toLowerCase()\<close> on code units below 256: A-Z and the Latin-1 capitals.\<close>

definition lower_char :: "char \<Rightarrow> char" where
  "lower_char c =
     (let n = (of_char c :: nat)
      in if (65 \<le> n \<and> n \<le> 90) \<or> (192 \<le> n \<and> n \<le> 222 \<and> n \<noteq> 215)
         then char_of (n + 32) else c)"

definition toLowerCase :: "string \<Rightarrow> string" where
  "toLowerCase s = map lower_char s"

text \<open>\<^verbatim>\<open>s.includes(t)\<close>: \<open>t\<close> occurs in \<open>s\<close> as a contiguous piece.\<close>

definition str_includes :: "string \<Rightarrow> string \<Rightarrow> bool" where
  "str_includes s t = sublist t s"

text \<open>\<^verbatim>\<open>xs.join(sep)\<close>.\<close>

fun join :: "string \<Rightarrow> string list \<Rightarrow> string" where
  "join sep [] = []"
| "join sep [x] = x"
| "join sep (x # y # ys) = x @ sep @ join sep (y # ys)"

section \<open>The structured document format\<close>

text \<open>
  A node of the tracker's document format, as the object literals of \<^verbatim>\<open>buildAdf\<close> have
  it: \<^verbatim>\<open>type\<close>, and optionally \<^verbatim>\<open>text\<close>, \<^verbatim>\<open>attrs.level\<close>, \<^verbatim>\<open>version\<close> and \<^verbatim>\<open>content\<close>.
\<close>

datatype adf =
  Adf (adf_type: string) (adf_text: "string option") (adf_level: "nat option")
      (adf_version: "nat option") (adf_content: "adf list option")

definition text_node :: "string \<Rightarrow> adf" where
  "text_node t = Adf ''text'' (Some t) None None None"

definition para_node :: "string \<Rightarrow> adf" where
  "para_node t = Adf ''paragraph'' None None None (Some [text_node t])"

definition list_item :: "string \<Rightarrow> adf" where
  "list_item ac = Adf ''listItem'' None None None (Some [para_node ac])"

definition buildAdf :: "string \<Rightarrow> string list \<Rightarrow> adf" where
  "buildAdf description acceptanceCriteria =
     Adf ''doc'' None None (Some 1)
       (Some ((if description \<noteq> [] then [para_node description] else []) @
              (if acceptanceCriteria \<noteq> []
               then [Adf ''heading'' None (Some 3) None (Some [text_node ''Acceptance Criteria'']),
                     Adf ''bulletList'' None None None (Some (map list_item acceptanceCriteria))]
               else [])))"

text \<open>
  \<^verbatim>\<open>walk\<close> pushes the text of every text node in document order; here it returns the
  texts pushed under one node.
\<close>

fun walk :: "adf \<Rightarrow> string list" where
  "walk (Adf ty tx lv ver c) =
     (if ty = ''text'' then [case tx of None \<Rightarrow> [] | Some t \<Rightarrow> t] else []) @
     (case c of None \<Rightarrow> [] | Some cs \<Rightarrow> concat (map walk cs))"

definition extractAdfText :: "adf \<Rightarrow> string" where
  "extractAdfText adf =
     (case adf_content adf of
        None \<Rightarrow> []
      | Some _ \<Rightarrow> trim (join '' '' (walk adf)))"

text \<open>
  The fragments \<open>fs\<close> occur in \<open>s\<close> one after the other, without overlap, in this order.
\<close>

fun in_order :: "string list \<Rightarrow> string \<Rightarrow> bool" where
  "in_order [] s = True"
| "in_order (f # fs) s = (\<exists>pre post. s = pre @ f @ post \<and> in_order fs post)"

section \<open>The generation adapter\<close>

subsection \<open>Decimal rendering of numbers\<close>

definition digit_char :: "nat \<Rightarrow> char" where
  "digit_char d = char_of (48 + d)"

fun show_nat :: "nat \<Rightarrow> string" where
  "show_nat n = (if n < 10 then [digit_char n] else show_nat (n div 10) @ [digit_char (n mod 10)])"

declare show_nat.simps [simp del]

subsection \<open>JSON values\<close>

text \<open>
  The values \<^verbatim>\<open>JSON.parse\<close> returns. A number keeps its lexeme. An object is the list of
  its members in insertion order, without duplicate keys.
\<close>

datatype json =
  JNull | JBool bool | JNum string | JStr string | JArr "json list" | JObj "(string \<times> json) list"

text \<open>
  \<^verbatim>\<open>JSON.parse\<close> belongs to the platform, not to the extension: \<open>groqGenerate\<close> below takes
  it as a parameter. \<open>json_parse\<close> is a model of it on 8-bit strings, used to run
  \<open>groqGenerate\<close> on concrete bodies: the JSON grammar with the four JSON white-space
  characters, the two-character escapes and \<^verbatim>\<open>\u00XX\<close>; an escape above
  \<^verbatim>\<open>\u00ff\<close> is outside the 8-bit strings and is not accepted. The recursion is bounded by a fuel of
  twice the length of the text plus two, which the nesting depth cannot exceed.
\<close>

definition is_json_ws :: "char \<Rightarrow> bool" where
  "is_json_ws c = ((of_char c :: nat) \<in> {9, 10, 13, 32})"

definition skip_ws :: "string \<Rightarrow> string" where
  "skip_ws s = dropWhile is_json_ws s"

definition is_digit :: "char \<Rightarrow> bool" where
  "is_digit c = (48 \<le> (of_char c :: nat) \<and> (of_char c :: nat) \<le> 57)"

definition hex_val :: "char \<Rightarrow> nat option" where
  "hex_val c =
     (let n = (of_char c :: nat)
      in if 48 \<le> n \<and> n \<le> 57 then Some (n - 48)
         else if 65 \<le> n \<and> n \<le> 70 then Some (n - 55)
         else if 97 \<le> n \<and> n \<le> 102 then Some (n - 87)
         else None)"

definition unescape :: "char \<Rightarrow> char option" where
  "unescape e =
     (if e = CHR 0x22 then Some (CHR 0x22)
      else if e = CHR 0x5C then Some (CHR 0x5C)
      else if e = CHR ''/'' then Some (CHR ''/'')
      else if e = CHR ''b'' then Some (CHR 0x08)
      else if e = CHR ''f'' then Some (CHR 0x0C)
      else if e = CHR ''n'' then Some (CHR 0x0A)
      else if e = CHR ''r'' then Some (CHR 0x0D)
      else if e = CHR ''t'' then Some (CHR 0x09)
      else None)"

definition unicode_escape :: "char \<Rightarrow> char \<Rightarrow> char \<Rightarrow> char \<Rightarrow> char option" where
  "unicode_escape a b c d =
     (case (hex_val a, hex_val b, hex_val c, hex_val d) of
        (Some 0, Some 0, Some h, Some l) \<Rightarrow> Some (char_of (16 * h + l))
      | _ \<Rightarrow> None)"

definition cons_char :: "char \<Rightarrow> (string \<times> string) option \<Rightarrow> (string \<times> string) option" where
  "cons_char c r = (case r of None \<Rightarrow> None | Some (s, rest) \<Rightarrow> Some (c # s, rest))"

text \<open>The characters of a string literal after its opening quote, and the rest of the text.\<close>

fun parse_chars :: "string \<Rightarrow> (string \<times> string) option" where
  "parse_chars [] = None"
| "parse_chars (c # cs) =
     (if c = CHR 0x22 then Some ([], cs)
      else if c = CHR 0x5C then
        (case cs of
           [] \<Rightarrow> None
         | e # r \<Rightarrow>
             if e = CHR ''u'' then
               (case r of
                  h1 # h2 # h3 # h4 # r' \<Rightarrow>
                    (case unicode_escape h1 h2 h3 h4 of
                       None \<Rightarrow> None
                     | Some u \<Rightarrow> cons_char u (parse_chars r'))
                | _ \<Rightarrow> None)
             else
               (case unescape e of
                  None \<Rightarrow> None
                | Some u \<Rightarrow> cons_char u (parse_chars r)))
      else if (of_char c :: nat) < 32 then None
      else cons_char c (parse_chars cs))"

text \<open>One or more digits at the head of a text.\<close>

definition digits1 :: "string \<Rightarrow> (string \<times> string) option" where
  "digits1 s =
     (if takeWhile is_digit s = [] then None
      else Some (takeWhile is_digit s, dropWhile is_digit s))"

definition parse_number :: "string \<Rightarrow> (string \<times> string) option" where
  "parse_number s =
     (let (sign, s1) = (case s of c # r \<Rightarrow> if c = CHR ''-'' then ([c], r) else ([], s) | [] \<Rightarrow> ([], s))
      in case (case s1 of
                 [] \<Rightarrow> None
               | c # r \<Rightarrow> if c = CHR ''0'' then Some ([c], r) else digits1 s1) of
           None \<Rightarrow> None
         | Some (ip, s2) \<Rightarrow>
             (case (case s2 of
                      [] \<Rightarrow> Some ([], s2)
                    | c # r \<Rightarrow>
                        if c = CHR ''.'' then
                          (case digits1 r of None \<Rightarrow> None | Some (ds, r') \<Rightarrow> Some (c # ds, r'))
                        else Some ([], s2)) of
                None \<Rightarrow> None
              | Some (fp, s3) \<Rightarrow>
                  (case s3 of
                     [] \<Rightarrow> Some (sign @ ip @ fp, s3)
                   | c # r \<Rightarrow>
                       if c = CHR ''e'' \<or> c = CHR ''E'' then
                         (let (es, r1) =
                            (case r of
                               g # r' \<Rightarrow> if g = CHR ''+'' \<or> g = CHR ''-'' then ([g], r') else ([], r)
                             | [] \<Rightarrow> ([], r))
                          in case digits1 r1 of
                               None \<Rightarrow> None
                             | Some (ds, r2) \<Rightarrow> Some (sign @ ip @ fp @ c # es @ ds, r2))
                       else Some (sign @ ip @ fp, s3))))"

fun parse_value :: "nat \<Rightarrow> string \<Rightarrow> (json \<times> string) option"
  and parse_elements :: "nat \<Rightarrow> string \<Rightarrow> (json list \<times> string) option"
  and parse_members :: "nat \<Rightarrow> string \<Rightarrow> ((string \<times> json) list \<times> string) option"
where
  "parse_value 0 s = None"
| "parse_value (Suc n) s =
     (case skip_ws s of
        [] \<Rightarrow> None
      | c # cs \<Rightarrow>
          if c = CHR ''{'' then
            (case skip_ws cs of
               [] \<Rightarrow> None
             | d # r \<Rightarrow>
                 if d = CHR ''}'' then Some (JObj [], r)
                 else (case parse_members n cs of
                         None \<Rightarrow> None
                       | Some (ms, r') \<Rightarrow>
                           Some (JObj (fold (\<lambda>(k, v). AList.update k v) ms []), r')))
          else if c = CHR ''['' then
            (case skip_ws cs of
               [] \<Rightarrow> None
             | d # r \<Rightarrow>
                 if d = CHR '']'' then Some (JArr [], r)
                 else (case parse_elements n cs of
                         None \<Rightarrow> None
                       | Some (vs, r') \<Rightarrow> Some (JArr vs, r')))
          else if c = CHR 0x22 then
            (case parse_chars cs of None \<Rightarrow> None | Some (str, r) \<Rightarrow> Some (JStr str, r))
          else if take 4 (c # cs) = ''true'' then Some (JBool True, drop 4 (c # cs))
          else if take 5 (c # cs) = ''false'' then Some (JBool False, drop 5 (c # cs))
          else if take 4 (c # cs) = ''null'' then Some (JNull, drop 4 (c # cs))
          else (case parse_number (c # cs) of None \<Rightarrow> None | Some (lx, r) \<Rightarrow> Some (JNum lx, r)))"
| "parse_elements 0 s = None"
| "parse_elements (Suc n) s =
     (case parse_value n s of
        None \<Rightarrow> None
      | Some (v, r) \<Rightarrow>
          (case skip_ws r of
             [] \<Rightarrow> None
           | c # r' \<Rightarrow>
               if c = CHR '','' then
                 (case parse_elements n r' of None \<Rightarrow> None | Some (vs, r'') \<Rightarrow> Some (v # vs, r''))
               else if c = CHR '']'' then Some ([v], r')
               else None))"
| "parse_members 0 s = None"
| "parse_members (Suc n) s =
     (case skip_ws s of
        [] \<Rightarrow> None
      | q # s1 \<Rightarrow>
          if q \<noteq> CHR 0x22 then None
          else
            (case parse_chars s1 of
               None \<Rightarrow> None
             | Some (k, s2) \<Rightarrow>
                 (case skip_ws s2 of
                    [] \<Rightarrow> None
                  | colon # s3 \<Rightarrow>
                      if colon \<noteq> CHR '':'' then None
                      else
                        (case parse_value n s3 of
                           None \<Rightarrow> None
                         | Some (v, r) \<Rightarrow>
                             (case skip_ws r of
                                [] \<Rightarrow> None
                              | c # r' \<Rightarrow>
                                  if c = CHR '','' then
                                    (case parse_members n r' of
                                       None \<Rightarrow> None
                                     | Some (ms, r'') \<Rightarrow> Some ((k, v) # ms, r''))
                                  else if c = CHR ''}'' then Some ([(k, v)], r')
                                  else None)))))"

definition json_parse :: "string \<Rightarrow> json option" where
  "json_parse s =
     (case parse_value (2 * length s + 2) s of
        None \<Rightarrow> None
      | Some (v, r) \<Rightarrow> if skip_ws r = [] then Some v else None)"

subsection \<open>Stripping the code fence\<close>

definition fence :: string where
  "fence = [CHR 0x60, CHR 0x60, CHR 0x60]"

text \<open>
  \<^verbatim>\<open>raw.replace(/^```json\s*/i, '')\<close>: three backquotes and the letters \<^verbatim>\<open>json\<close> in either
  case at the very start, with the white space after them.
\<close>

definition strip_open :: "string \<Rightarrow> string" where
  "strip_open s =
     (if take 3 s = fence \<and> toLowerCase (take 4 (drop 3 s)) = ''json''
      then dropWhile is_space (drop 7 s) else s)"

text \<open>
  \<^verbatim>\<open>.replace(/```\s*$/, '')\<close>: three backquotes followed by nothing but white space up to
  the end of the text; they and that white space are removed.
\<close>

definition strip_close :: "string \<Rightarrow> string" where
  "strip_close s =
     (let body = rev (dropWhile is_space (rev s))
      in if suffix fence body then take (length body - 3) body else s)"

definition stripFences :: "string \<Rightarrow> string" where
  "stripFences raw = trim (strip_close (strip_open raw))"

subsection \<open>groqGenerate\<close>

text \<open>
  The reply of the completion endpoint: not ok, with \<^verbatim>\<open>err.error?.message\<close> and the HTTP
  status; or ok, with \<^verbatim>\<open>data.choices?.[0]?.message?.content\<close>. The request (mode, titles,
  description) only shapes the prompt; of the arguments, the function's result depends on
  \<open>numSubtasks\<close> alone.
\<close>

datatype groq_reply = ReplyNotOk "string option" nat | ReplyOk "string option"

text \<open>
  The errors thrown: the API error with its message, \<^verbatim>\<open>'AI returned invalid JSON. Please
  try again.'\<close>, \<^verbatim>\<open>'AI response missing subtasks array. Please try again.'\<close>, and the
  \<^verbatim>\<open>TypeError\<close> of reading \<^verbatim>\<open>subtasks\<close> of \<^verbatim>\<open>null\<close>.
\<close>

datatype gen_error = ApiError string | InvalidJson | MissingSubtasks | NullTypeError

text \<open>\<^verbatim>\<open>xs.slice(0, n)\<close> for an integer \<open>n\<close>: a negative \<open>n\<close> counts from the end.\<close>

definition slice0 :: "'a list \<Rightarrow> int \<Rightarrow> 'a list" where
  "slice0 xs n = (if n < 0 then take (nat (int (length xs) + n)) xs else take (nat n) xs)"

text \<open>\<^verbatim>\<open>data.choices?.[0]?.message?.content || '{}'\<close>.\<close>

definition rawContent :: "string option \<Rightarrow> string" where
  "rawContent content = (case content of None \<Rightarrow> ''{}'' | Some c \<Rightarrow> if c = [] then ''{}'' else c)"

text \<open>
  \<^verbatim>\<open>parsed.subtasks\<close> of a parsed value other than \<^verbatim>\<open>null\<close>: the member of an object, and
  \<^verbatim>\<open>undefined\<close> (here \<open>None\<close>) where there is none and on arrays, strings, numbers and
  booleans.
\<close>

definition subtasks_member :: "json \<Rightarrow> json option" where
  "subtasks_member parsed = (case parsed of JObj members \<Rightarrow> map_of members ''subtasks'' | _ \<Rightarrow> None)"

text \<open>\<^verbatim>\<open>parsed.subtasks = v\<close> on an object that has the member.\<close>

definition set_subtasks :: "json \<Rightarrow> json \<Rightarrow> json" where
  "set_subtasks parsed v =
     (case parsed of JObj members \<Rightarrow> JObj (AList.update ''subtasks'' v members) | _ \<Rightarrow> parsed)"

text \<open>
  The test \<^verbatim>\<open>!parsed.subtasks || !Array.isArray(parsed.subtasks)\<close> is true exactly when the
  member is not an array, every array being truthy.
\<close>

definition groqGenerate :: "(string \<Rightarrow> json option) \<Rightarrow> groq_reply \<Rightarrow> int \<Rightarrow> gen_error + json" where
  "groqGenerate JSON_parse reply numSubtasks =
     (case reply of
        ReplyNotOk msg status \<Rightarrow>
          Inl (ApiError
            (case msg of
               None \<Rightarrow> ''Groq API error '' @ show_nat status
             | Some m \<Rightarrow> if m = [] then ''Groq API error '' @ show_nat status else m))
      | ReplyOk content \<Rightarrow>
          (case JSON_parse (stripFences (rawContent content)) of
             None \<Rightarrow> Inl InvalidJson
           | Some parsed \<Rightarrow>
               if parsed = JNull then Inl NullTypeError
               else
                 (case subtasks_member parsed of
                    Some (JArr subtasks) \<Rightarrow>
                      if int (length subtasks) > numSubtasks
                      then Inr (set_subtasks parsed (JArr (slice0 subtasks numSubtasks)))
                      else Inr parsed
                  | _ \<Rightarrow> Inl MissingSubtasks)))"

section \<open>The remote tracker\<close>

text \<open>
  The objects of the tracker's REST API, with the members the extension reads. A creation
  response is \<^verbatim>\<open>{key: ...}\<close>, of which only the key (a string) is read.
\<close>

record transition =
  t_id :: string
  t_name :: string

record issuetype =
  it_name :: string
  it_subtask :: bool

record project =
  p_key :: string
  p_issuetypes :: "issuetype list"

record status =
  s_name :: string
  s_id :: string

text \<open>The \<^verbatim>\<open>fields\<close> of an issue creation; \<^verbatim>\<open>parent\<close> is there for a subtask only.\<close>

record issue_fields =
  f_project :: string
  f_parent :: "string option"
  f_summary :: string
  f_description :: adf
  f_issuetype :: string

text \<open>The object \<^verbatim>\<open>extraFields\<close>: each member is there only when it was configured.\<close>

record extra_fields =
  ef_priority :: "string option"
  ef_assignee :: "string option"
  ef_duedate :: "string option"
  ef_labels :: "string list option"

text \<open>
  The requests the extension sends, one constructor for each place that sends one:
  \<^verbatim>\<open>POST issue\<close>, \<^verbatim>\<open>PUT issue/{key}\<close>, \<^verbatim>\<open>GET\<close> and \<^verbatim>\<open>POST issue/{key}/transitions\<close>,
  \<^verbatim>\<open>GET issue/createmeta\<close>, the probe \<^verbatim>\<open>POST issue\<close> with the summary \<^verbatim>\<open>__probe__\<close>
  (project key and type name), \<^verbatim>\<open>GET user/search\<close>, \<^verbatim>\<open>POST issue/{key}/watchers\<close> and
  \<^verbatim>\<open>GET project/{key}/statuses\<close>.
\<close>

datatype call =
  PostIssue issue_fields
| PutIssue string extra_fields
| GetTransitions string
| PostTransition string string
| GetCreateMeta string
| PostProbe string string
| GetUserSearch string
| PostWatcher string string
| GetStatuses string

text \<open>
  The tracker is any deterministic server: its answer to a request may depend on every
  request it received before (the first argument, oldest first). \<open>Inl\<close> is the error that
  \<^verbatim>\<open>jiraRequest\<close> throws, with its message. The probe is sent with \<^verbatim>\<open>fetch\<close> directly: \<open>None\<close>
  is a rejected fetch, \<open>Some\<close> the serialised body \<^verbatim>\<open>JSON.stringify(body)\<close> of the response.
\<close>

type_synonym error = string

record tracker =
  post_issue :: "call list \<Rightarrow> issue_fields \<Rightarrow> error + string"
  put_issue :: "call list \<Rightarrow> string \<Rightarrow> extra_fields \<Rightarrow> error + unit"
  get_transitions :: "call list \<Rightarrow> string \<Rightarrow> error + transition list"
  post_transition :: "call list \<Rightarrow> string \<Rightarrow> string \<Rightarrow> error + unit"
  get_createmeta :: "call list \<Rightarrow> string \<Rightarrow> error + project list"
  post_probe :: "call list \<Rightarrow> string \<Rightarrow> string \<Rightarrow> string option"
  get_user_search :: "call list \<Rightarrow> string \<Rightarrow> error + string list"
  post_watcher :: "call list \<Rightarrow> string \<Rightarrow> string \<Rightarrow> error + unit"
  get_statuses :: "call list \<Rightarrow> string \<Rightarrow> error + status list list"

text \<open>
  The state the functions share: the requests sent so far and \<^verbatim>\<open>_subtaskTypeCache\<close>.
\<close>

record world =
  calls :: "call list"
  subtaskTypeCache :: "string \<rightharpoonup> string"

definition send :: "call \<Rightarrow> world \<Rightarrow> world" where
  "send c w = w\<lparr>calls := calls w @ [c]\<rparr>"

section \<open>The schema resolver\<close>

text \<open>
  \<^verbatim>\<open>statusMap.set(s.name, s)\<close> is \<open>AList.update\<close>: a new name is appended, a name already
  there keeps its place and takes the new object.
\<close>

definition fetchProjectStatuses :: "tracker \<Rightarrow> string \<Rightarrow> world \<Rightarrow> (error + status list) \<times> world" where
  "fetchProjectStatuses T projectKey w =
     (case get_statuses T (calls w) projectKey of
        Inl e \<Rightarrow> (Inl e, send (GetStatuses projectKey) w)
      | Inr data \<Rightarrow>
          (Inr (map snd
             (fold (\<lambda>type statusMap. fold (\<lambda>s m. AList.update (s_name s) s m) type statusMap) data [])),
           send (GetStatuses projectKey) w))"

text \<open>
  The map that the two nested iterations build from the flattened list of statuses: its keys
  are the names in the order of their first occurrence, and the object under a name is the
  last status of that name.
\<close>

definition statusMapOf :: "status list \<Rightarrow> (string \<times> status) list" where
  "statusMapOf xs = fold (\<lambda>s m. AList.update (s_name s) s m) xs []"

text \<open>\<^verbatim>\<open>_subtaskTypeCache[projectKey]\<close> as a condition: an empty string counts as absent.\<close>

definition cached :: "world \<Rightarrow> string \<Rightarrow> string option" where
  "cached w projectKey =
     (case subtaskTypeCache w projectKey of
        None \<Rightarrow> None
      | Some v \<Rightarrow> if v = [] then None else Some v)"

definition remember :: "string \<Rightarrow> string \<Rightarrow> world \<Rightarrow> world" where
  "remember projectKey name w = w\<lparr>subtaskTypeCache := (subtaskTypeCache w)(projectKey \<mapsto> name)\<rparr>"

text \<open>
  The \<^verbatim>\<open>try\<close> block of \<^verbatim>\<open>detectSubtaskTypeName\<close> on the answer to the creation-metadata
  request: the first issue type flagged as a subtask of the first project with this key.
\<close>

definition metaSubtaskType :: "error + project list \<Rightarrow> string \<Rightarrow> issuetype option" where
  "metaSubtaskType r projectKey =
     (case r of
        Inl e \<Rightarrow> None
      | Inr projects \<Rightarrow>
          (case find (\<lambda>p. p_key p = projectKey) projects of
             None \<Rightarrow> None
           | Some proj \<Rightarrow> find it_subtask (p_issuetypes proj)))"

definition candidates :: "string list" where
  "candidates = [''Subtask'', ''Sub-task'', ''subtask'', ''sub-task'']"

text \<open>The test on the serialised body of a probe's response.\<close>

definition no_issuetype_error :: "string \<Rightarrow> bool" where
  "no_issuetype_error body =
     (let errText = toLowerCase body
      in \<not> str_includes errText ''issuetype'' \<and> \<not> str_includes errText ''issue type'')"

text \<open>
  What one probe decides: the candidate is taken when the response could be read and its
  serialised body passes the test; a rejected fetch is caught and the loop goes on.
\<close>

definition probe_accepts :: "string option \<Rightarrow> bool" where
  "probe_accepts r = (case r of None \<Rightarrow> False | Some body \<Rightarrow> no_issuetype_error body)"

text \<open>The loop over the candidate names, and the fallback after it.\<close>

fun probeCandidates :: "tracker \<Rightarrow> string \<Rightarrow> string list \<Rightarrow> world \<Rightarrow> string \<times> world" where
  "probeCandidates T projectKey [] w = (''Subtask'', remember projectKey ''Subtask'' w)"
| "probeCandidates T projectKey (name # rest) w =
     (if probe_accepts (post_probe T (calls w) projectKey name)
      then (name, remember projectKey name (send (PostProbe projectKey name) w))
      else probeCandidates T projectKey rest (send (PostProbe projectKey name) w))"

definition detectSubtaskTypeName :: "tracker \<Rightarrow> string \<Rightarrow> world \<Rightarrow> string \<times> world" where
  "detectSubtaskTypeName T projectKey w =
     (case cached w projectKey of
        Some v \<Rightarrow> (v, w)
      | None \<Rightarrow>
          (case metaSubtaskType (get_createmeta T (calls w) projectKey) projectKey of
             Some subtaskType \<Rightarrow>
               (it_name subtaskType,
                remember projectKey (it_name subtaskType) (send (GetCreateMeta projectKey) w))
           | None \<Rightarrow> probeCandidates T projectKey candidates (send (GetCreateMeta projectKey) w)))"

section \<open>The tracker operations of a run\<close>

definition jiraTransition :: "tracker \<Rightarrow> string \<Rightarrow> string \<Rightarrow> world \<Rightarrow> (error + unit) \<times> world" where
  "jiraTransition T issueKey targetStatus w =
     (case get_transitions T (calls w) issueKey of
        Inl e \<Rightarrow> (Inl e, send (GetTransitions issueKey) w)
      | Inr transitions \<Rightarrow>
          (case find (\<lambda>t. toLowerCase (t_name t) = toLowerCase targetStatus) transitions of
             None \<Rightarrow> (Inr (), send (GetTransitions issueKey) w)
           | Some match \<Rightarrow>
               (post_transition T (calls (send (GetTransitions issueKey) w)) issueKey (t_id match),
                send (PostTransition issueKey (t_id match)) (send (GetTransitions issueKey) w))))"

definition parentFieldsOf :: "string \<Rightarrow> string \<Rightarrow> string \<Rightarrow> string \<Rightarrow> string list \<Rightarrow> issue_fields" where
  "parentFieldsOf projectKey issueType title description acceptanceCriteria =
     \<lparr>f_project = projectKey, f_parent = None, f_summary = title,
      f_description = buildAdf description acceptanceCriteria, f_issuetype = issueType\<rparr>"

definition jiraCreateIssue ::
  "tracker \<Rightarrow> string \<Rightarrow> string \<Rightarrow> string \<Rightarrow> string \<Rightarrow> string list \<Rightarrow> world \<Rightarrow> (error + string) \<times> world"
where
  "jiraCreateIssue T projectKey issueType title description acceptanceCriteria w =
     (let fields = parentFieldsOf projectKey issueType title description acceptanceCriteria
      in (post_issue T (calls w) fields, send (PostIssue fields) w))"

text \<open>\<^verbatim>\<open>Object.keys(extraFields).length > 0\<close>.\<close>

definition has_keys :: "extra_fields \<Rightarrow> bool" where
  "has_keys x = (ef_priority x \<noteq> None \<or> ef_assignee x \<noteq> None \<or> ef_duedate x \<noteq> None \<or> ef_labels x \<noteq> None)"

text \<open>
  \<open>breakType\<close> is a string, empty when no type was chosen (\<^verbatim>\<open>meta.breakType || null\<close>):
  \<^verbatim>\<open>breakType ? breakType : await detectSubtaskTypeName(projectKey)\<close>.
\<close>

definition resolveTypeName :: "tracker \<Rightarrow> string \<Rightarrow> string \<Rightarrow> world \<Rightarrow> string \<times> world" where
  "resolveTypeName T breakType projectKey w =
     (if breakType \<noteq> [] then (breakType, w) else detectSubtaskTypeName T projectKey w)"

text \<open>The object \<^verbatim>\<open>baseFields\<close>: the essential fields of a subtask.\<close>

definition baseFieldsOf :: "string \<Rightarrow> string \<Rightarrow> string \<Rightarrow> string \<Rightarrow> string list \<Rightarrow> string \<Rightarrow> issue_fields" where
  "baseFieldsOf parentKey projectKey title description acceptanceCriteria typeName =
     \<lparr>f_project = projectKey, f_parent = Some parentKey, f_summary = title,
      f_description = buildAdf description acceptanceCriteria, f_issuetype = typeName\<rparr>"

text \<open>
  The result is the key of the created subtask, or the error of the creation request; the
  error of the update request is caught.
\<close>

definition jiraCreateSubtask ::
  "tracker \<Rightarrow> string \<Rightarrow> string \<Rightarrow> string \<Rightarrow> string \<Rightarrow> string list \<Rightarrow> string \<Rightarrow> extra_fields \<Rightarrow>
     world \<Rightarrow> (error + string) \<times> world"
where
  "jiraCreateSubtask T parentKey projectKey title description acceptanceCriteria breakType extraFields w =
     (let (typeName, w1) = resolveTypeName T breakType projectKey w;
          baseFields = baseFieldsOf parentKey projectKey title description acceptanceCriteria typeName
      in case post_issue T (calls w1) baseFields of
           Inl e \<Rightarrow> (Inl e, send (PostIssue baseFields) w1)
         | Inr key \<Rightarrow>
             if has_keys extraFields
             then (Inr key, send (PutIssue key extraFields) (send (PostIssue baseFields) w1))
             else (Inr key, send (PostIssue baseFields) w1))"

definition jiraAddWatcher :: "tracker \<Rightarrow> string \<Rightarrow> string \<Rightarrow> world \<Rightarrow> (error + unit) \<times> world" where
  "jiraAddWatcher T issueKey userQuery w =
     (let (accountId, w1) =
            (if CHR ''@'' \<in> set userQuery
             then (case get_user_search T (calls w) userQuery of
                     Inr (u # us) \<Rightarrow> u
                   | _ \<Rightarrow> userQuery,
                   send (GetUserSearch userQuery) w)
             else (userQuery, w))
      in (post_watcher T (calls w1) issueKey accountId, send (PostWatcher issueKey accountId) w1))"

section \<open>The creation orchestrator\<close>

text \<open>
  The generation result with the metadata bag \<^verbatim>\<open>_meta\<close> attached to it. A string member
  that is absent is the empty string and a list member that is absent is the empty list,
  as the defaults \<^verbatim>\<open>|| ''\<close> and \<^verbatim>\<open>|| []\<close> of the code make them.
\<close>

text \<open>
  The numbers \<^verbatim>\<open>parseFloat\<close> can give for the story points: \<^verbatim>\<open>NaN\<close>, an infinity
  (\<open>True\<close> for the negative one), or a finite number \<open>JsFinite negative m e\<close>, which is
  \<open>m\<close> times two to the power \<open>e\<close> with its sign; every finite double is of this form,
  and the two zeros are those with \<open>m = 0\<close>.
\<close>

datatype jsnum = JsNaN | JsInfinite bool | JsFinite bool nat int

definition is_zero :: "jsnum \<Rightarrow> bool" where
  "is_zero v = (case v of JsFinite negative m e \<Rightarrow> m = 0 | _ \<Rightarrow> False)"

text \<open>A number as a condition: zero and \<^verbatim>\<open>NaN\<close> are falsy, every other number is truthy.\<close>

definition js_truthy :: "jsnum \<Rightarrow> bool" where
  "js_truthy v = (v \<noteq> JsNaN \<and> \<not> is_zero v)"

datatype mode = Breakdown | Create

record meta =
  m_mode :: mode
  m_parentKey :: string
  m_projectKey :: string
  m_issueType :: string
  m_breakType :: string
  m_jiraStatus :: string
  m_priority :: string
  m_assigneeId :: string
  m_dueDate :: string
  m_labels :: "string list"
  m_storyPoints :: "jsnum option"
  m_watchers :: "string list"

record subtask =
  st_title :: string
  st_description :: string
  st_acceptance_criteria :: "string list"

record ai_output =
  ao_title :: string
  ao_description :: string
  ao_acceptance_criteria :: "string list"
  ao_subtasks :: "subtask list"
  ao_meta :: meta

text \<open>\<^verbatim>\<open>meta.storyPoints || null\<close>: a falsy number becomes \<^verbatim>\<open>null\<close>.\<close>

definition storyPointsOf :: "meta \<Rightarrow> jsnum option" where
  "storyPointsOf m =
     (case m_storyPoints m of None \<Rightarrow> None | Some v \<Rightarrow> if js_truthy v then Some v else None)"

text \<open>
  \<open>numberToString\<close> is the text the platform gives a number in a template literal, here
  in \<^verbatim>\<open>`sp:${storyPoints}`\<close>. It belongs to the platform, not to the extension, and is
  a parameter of the functions that use it.
\<close>

definition finalLabelsOf :: "(jsnum \<Rightarrow> string) \<Rightarrow> meta \<Rightarrow> string list" where
  "finalLabelsOf numberToString m =
     m_labels m @ (case storyPointsOf m of None \<Rightarrow> [] | Some v \<Rightarrow> [''sp:'' @ numberToString v])"

definition extraFieldsOf :: "(jsnum \<Rightarrow> string) \<Rightarrow> meta \<Rightarrow> extra_fields" where
  "extraFieldsOf numberToString m =
     \<lparr>ef_priority = (if m_priority m \<noteq> [] then Some (m_priority m) else None),
      ef_assignee = (if m_assigneeId m \<noteq> [] then Some (m_assigneeId m) else None),
      ef_duedate = (if m_dueDate m \<noteq> [] then Some (m_dueDate m) else None),
      ef_labels = (if finalLabelsOf numberToString m \<noteq> []
                   then Some (finalLabelsOf numberToString m) else None)\<rparr>"

text \<open>\<^verbatim>\<open>if (jiraStatus && key) await jiraTransition(key, jiraStatus).catch(() => { })\<close>.\<close>

definition transitionIfSet :: "tracker \<Rightarrow> string \<Rightarrow> string \<Rightarrow> world \<Rightarrow> world" where
  "transitionIfSet T jiraStatus key w =
     (if jiraStatus \<noteq> [] \<and> key \<noteq> [] then snd (jiraTransition T key jiraStatus w) else w)"

text \<open>\<^verbatim>\<open>for (const w of watchers) await jiraAddWatcher(stKey, w).catch(() => { })\<close>.\<close>

definition addWatchers :: "tracker \<Rightarrow> string \<Rightarrow> string list \<Rightarrow> world \<Rightarrow> world" where
  "addWatchers T stKey watchers w = fold (\<lambda>u w'. snd (jiraAddWatcher T stKey u w')) watchers w"

text \<open>The call of \<^verbatim>\<open>jiraCreateSubtask\<close> in the loop, for the subtask \<open>st\<close>.\<close>

definition createOne ::
  "(jsnum \<Rightarrow> string) \<Rightarrow> tracker \<Rightarrow> meta \<Rightarrow> string \<Rightarrow> subtask \<Rightarrow> world \<Rightarrow> (error + string) \<times> world"
where
  "createOne numberToString T m parentKey st w =
     jiraCreateSubtask T parentKey (m_projectKey m) (st_title st) (st_description st)
       (st_acceptance_criteria st) (m_breakType m) (extraFieldsOf numberToString m) w"

text \<open>
  The loop over the subtasks, from some subtask on: the error that ended it if one did,
  and the array \<^verbatim>\<open>createdKeys\<close> as the loop leaves it.
\<close>

fun createSubtasks ::
  "(jsnum \<Rightarrow> string) \<Rightarrow> tracker \<Rightarrow> meta \<Rightarrow> string \<Rightarrow> subtask list \<Rightarrow> string list \<Rightarrow> world \<Rightarrow>
     (error option \<times> string list) \<times> world"
where
  "createSubtasks numberToString T m parentKey [] createdKeys w = ((None, createdKeys), w)"
| "createSubtasks numberToString T m parentKey (st # rest) createdKeys w =
     (case createOne numberToString T m parentKey st w of
        (Inl e, w1) \<Rightarrow> ((Some e, createdKeys), w1)
      | (Inr stKey, w1) \<Rightarrow>
          createSubtasks numberToString T m parentKey rest (createdKeys @ [stKey])
            (addWatchers T stKey (m_watchers m) (transitionIfSet T (m_jiraStatus m) stKey w1)))"

text \<open>
  What a run leaves: what it shows, \<^verbatim>\<open>showResult(parentKey, createdKeys, meta)\<close> or the
  toast \<^verbatim>\<open>Failed: message\<close>, and the contents of the local array \<^verbatim>\<open>createdKeys\<close> when the
  run ends.
\<close>

datatype outcome = Shown string "string list" | Failed error

text \<open>
  The keys a run reports: the array handed to \<^verbatim>\<open>showResult\<close>. A failed run goes to the
  \<^verbatim>\<open>catch\<close> block, which shows the message of the error and no key.
\<close>

definition reportedKeys :: "outcome \<Rightarrow> string list option" where
  "reportedKeys out = (case out of Shown parentKey keys \<Rightarrow> Some keys | Failed e \<Rightarrow> None)"

record confirm_result =
  cr_outcome :: outcome
  cr_createdKeys :: "string list"

definition finish :: "string \<Rightarrow> (error option \<times> string list) \<times> world \<Rightarrow> confirm_result \<times> world" where
  "finish parentKey r =
     (case r of
        ((None, createdKeys), w) \<Rightarrow>
          (\<lparr>cr_outcome = Shown parentKey createdKeys, cr_createdKeys = createdKeys\<rparr>, w)
      | ((Some e, createdKeys), w) \<Rightarrow>
          (\<lparr>cr_outcome = Failed e, cr_createdKeys = createdKeys\<rparr>, w))"

text \<open>
  The part of a run before the loop: the parent key and the array \<^verbatim>\<open>createdKeys\<close> with
  which the loop starts, or the error of the parent's creation. In create mode the parent
  is created and its key pushed; in either mode the transition of the parent is tried
  when a status is configured and the key is not empty.
\<close>

definition resolveParent :: "tracker \<Rightarrow> ai_output \<Rightarrow> world \<Rightarrow> (error + string \<times> string list) \<times> world" where
  "resolveParent T ai w =
     (let m = ao_meta ai
      in if m_mode m = Create then
           (case jiraCreateIssue T (m_projectKey m)
                   (if m_issueType m \<noteq> [] then m_issueType m else ''Story'')
                   (ao_title ai) (ao_description ai) (ao_acceptance_criteria ai) w of
              (Inl e, w1) \<Rightarrow> (Inl e, w1)
            | (Inr parentKey, w1) \<Rightarrow>
                (Inr (parentKey, [parentKey]), transitionIfSet T (m_jiraStatus m) parentKey w1))
         else (Inr (m_parentKey m, []), transitionIfSet T (m_jiraStatus m) (m_parentKey m) w))"

text \<open>
  \<open>onConfirm\<close> returns at once, doing nothing, when there is no generation result or the
  settings are incomplete (\<open>settingsValid\<close> is the result of \<^verbatim>\<open>validateSettings()\<close>).
\<close>

definition onConfirm ::
  "(jsnum \<Rightarrow> string) \<Rightarrow> tracker \<Rightarrow> bool \<Rightarrow> ai_output option \<Rightarrow> world \<Rightarrow>
     confirm_result option \<times> world"
where
  "onConfirm numberToString T settingsValid currentAiOutput w =
     (case currentAiOutput of
        None \<Rightarrow> (None, w)
      | Some ai \<Rightarrow>
          if \<not> settingsValid then (None, w)
          else
            (case resolveParent T ai w of
               (Inl e, w1) \<Rightarrow> (Some \<lparr>cr_outcome = Failed e, cr_createdKeys = []\<rparr>, w1)
             | (Inr (parentKey, createdKeys), w1) \<Rightarrow>
                 (case finish parentKey
                         (createSubtasks numberToString T (ao_meta ai) parentKey (ao_subtasks ai) createdKeys w1) of
                    (r, w') \<Rightarrow> (Some r, w'))))"

text \<open>The fields of the parent's creation request in a create-mode run on \<open>ai\<close>.\<close>

definition parentFieldsFor :: "ai_output \<Rightarrow> issue_fields" where
  "parentFieldsFor ai =
     parentFieldsOf (m_projectKey (ao_meta ai))
       (if m_issueType (ao_meta ai) \<noteq> [] then m_issueType (ao_meta ai) else ''Story'')
       (ao_title ai) (ao_description ai) (ao_acceptance_criteria ai)"

text \<open>The essential fields of the creation request of the subtask \<open>st\<close> in a run on \<open>ai\<close>.\<close>

definition subtaskFieldsFor :: "ai_output \<Rightarrow> string \<Rightarrow> subtask \<Rightarrow> string \<Rightarrow> issue_fields" where
  "subtaskFieldsFor ai parentKey st typeName =
     baseFieldsOf parentKey (m_projectKey (ao_meta ai)) (st_title st) (st_description st)
       (st_acceptance_criteria st) typeName"

section \<open>Reading the requests of a run\<close>

text \<open>
  The issue creations among the requests sent, in the order they were sent; those of
  subtasks carry a parent. The updates of fields, with the key and the fields sent.
\<close>

definition issue_posts :: "call list \<Rightarrow> issue_fields list" where
  "issue_posts cs = concat (map (\<lambda>c. case c of PostIssue f \<Rightarrow> [f] | _ \<Rightarrow> []) cs)"

definition subtask_posts :: "call list \<Rightarrow> issue_fields list" where
  "subtask_posts cs = filter (\<lambda>f. f_parent f \<noteq> None) (issue_posts cs)"

definition issue_puts :: "call list \<Rightarrow> (string \<times> extra_fields) list" where
  "issue_puts cs = concat (map (\<lambda>c. case c of PutIssue k x \<Rightarrow> [(k, x)] | _ \<Rightarrow> []) cs)"

text \<open>
  From \<open>w\<close> to \<open>w'\<close> requests were only added, none of them a creation or an update of an
  issue.
\<close>

definition quiet :: "world \<Rightarrow> world \<Rightarrow> bool" where
  "quiet w w' = (\<exists>new. calls w' = calls w @ new \<and> issue_posts new = [] \<and> issue_puts new = [])"

text \<open>
  \<open>f\<close> is a creation request for the subtask \<open>st\<close> in a run on \<open>ai\<close>: it has a parent, and
  the project, the summary and the description are those of the subtask.
\<close>

definition creates :: "ai_output \<Rightarrow> issue_fields \<Rightarrow> subtask \<Rightarrow> bool" where
  "creates ai f st =
     (f_parent f \<noteq> None \<and> f_project f = m_projectKey (ao_meta ai) \<and> f_summary f = st_title st \<and>
      f_description f = buildAdf (st_description st) (st_acceptance_criteria st))"

section \<open>A sample tracker\<close>

text \<open>
  A tracker to run the functions on. Project \<^verbatim>\<open>KAN\<close> has a subtask type \<^verbatim>\<open>Sub-task\<close>;
  the creation metadata of any other project cannot be read, and a probe there is
  answered with an error about the issue type unless the name is \<^verbatim>\<open>Sub-task\<close>. An issue
  with the summary \<^verbatim>\<open>fail\<close> cannot be created; the key of any other new issue is \<^verbatim>\<open>KAN-1\<close>
  followed by one \<^verbatim>\<open>0\<close> for each creation request before it. No field can be updated.
\<close>

definition is_post_issue :: "call \<Rightarrow> bool" where
  "is_post_issue c = (case c of PostIssue f \<Rightarrow> True | _ \<Rightarrow> False)"

definition sample_statuses :: "status list list" where
  "sample_statuses =
     [ [\<lparr>s_name = ''To Do'', s_id = ''1''\<rparr>, \<lparr>s_name = ''Done'', s_id = ''2''\<rparr>],
      [\<lparr>s_name = ''Done'', s_id = ''7''\<rparr>, \<lparr>s_name = ''Review'', s_id = ''8''\<rparr>]]"

definition sample_tracker :: tracker where
  \<open>sample_tracker =
     \<lparr>post_issue = (\<lambda>h f. if f_summary f = ''fail'' then Inl ''Jira error: refused''
                           else Inr (''KAN-1'' @ replicate (length (filter is_post_issue h)) (CHR ''0''))),
      put_issue = (\<lambda>h k x. Inl ''Jira error: Field not on screen''),
      get_transitions = (\<lambda>h k. Inr [\<lparr>t_id = ''11'', t_name = ''To Do''\<rparr>,
                                     \<lparr>t_id = ''21'', t_name = ''In Progress''\<rparr>]),
      post_transition = (\<lambda>h k i. Inr ()),
      get_createmeta = (\<lambda>h pk. if pk = ''KAN''
                                then Inr [\<lparr>p_key = ''KAN'',
                                           p_issuetypes = [\<lparr>it_name = ''Story'', it_subtask = False\<rparr>,
                                                           \<lparr>it_name = ''Sub-task'', it_subtask = True\<rparr>]\<rparr>]
                                else Inl ''Jira error: HTTP 403''),
      post_probe = (\<lambda>h pk name. if name = ''Sub-task''
                                 then Some ''{"errors":{"parent":"Parent is required"}}''
                                 else Some ''{"errors":{"issuetype":"Specify a valid issue type"}}''),
      get_user_search = (\<lambda>h q. Inr []),
      post_watcher = (\<lambda>h k a. Inr ()),
      get_statuses = (\<lambda>h pk. Inr sample_statuses)\<rparr>\<close>

definition fresh :: world where
  "fresh = \<lparr>calls = [], subtaskTypeCache = Map.empty\<rparr>"

text \<open>
  The platform's text of a number, on the numbers the runs below use: a whole number
  below one thousand, given with the exponent zero, is written with its decimal digits, a
  minus sign before them unless it is zero. The texts of the other finite numbers are
  not modelled here and stand as a question mark.
\<close>

definition sample_numberToString :: "jsnum \<Rightarrow> string" where
  "sample_numberToString v =
     (case v of
        JsNaN \<Rightarrow> ''NaN''
      | JsInfinite negative \<Rightarrow> (if negative then ''-Infinity'' else ''Infinity'')
      | JsFinite negative m e \<Rightarrow>
          if e = 0 \<and> m < 1000
          then (if negative \<and> m \<noteq> 0 then ''-'' else []) @ show_nat m
          else ''?'')"

text \<open>A generation result to run the orchestrator on, in either mode.\<close>

definition sample_meta :: meta where
  "sample_meta =
     \<lparr>m_mode = Create, m_parentKey = [], m_projectKey = ''KAN'', m_issueType = ''Story'',
      m_breakType = [], m_jiraStatus = ''in progress'', m_priority = ''High'', m_assigneeId = [],
      m_dueDate = [], m_labels = [''backend''], m_storyPoints = Some (JsFinite False 5 0), m_watchers = [''bob'']\<rparr>"

definition sample_output :: ai_output where
  "sample_output =
     \<lparr>ao_title = ''Add login'', ao_description = ''Users sign in'',
      ao_acceptance_criteria = [''form shown''],
      ao_subtasks = [\<lparr>st_title = ''Design form'', st_description = ''Lay out the form'',
                       st_acceptance_criteria = [''reviewed'']\<rparr>,
                     \<lparr>st_title = ''fail'', st_description = [], st_acceptance_criteria = []\<rparr>,
                     \<lparr>st_title = ''Store token'', st_description = [], st_acceptance_criteria = []\<rparr>],
      ao_meta = sample_meta\<rparr>"

definition first_subtask :: subtask where
  "first_subtask = \<lparr>st_title = ''Design form'', st_description = ''Lay out the form'',
                     st_acceptance_criteria = [''reviewed'']\<rparr>"

definition last_subtask :: subtask where
  "last_subtask = \<lparr>st_title = ''Store token'', st_description = [], st_acceptance_criteria = []\<rparr>"

section \<open>Properties of the document format\<close>

lemma walk_text_node: "walk (text_node t) = [t]"
  by (simp add: text_node_def)

lemma walk_para_node: "walk (para_node t) = [t]"
  by (simp add: para_node_def walk_text_node)

lemma walk_list_item: "walk (list_item t) = [t]"
  by (simp add: list_item_def walk_para_node)

lemma walk_list_items: "concat (map (walk \<circ> list_item) acs) = acs"
  by (induction acs) (simp_all add: walk_list_item)

lemma walk_buildAdf:
  "walk (buildAdf d acs) =
     (if d \<noteq> [] then [d] else []) @ (if acs \<noteq> [] then ''Acceptance Criteria'' # acs else [])"
  by (simp add: buildAdf_def walk_para_node walk_text_node walk_list_items)

lemma trim_unchanged:
  assumes "s \<noteq> []" and "\<not> is_space (hd s)" and "\<not> is_space (last s)"
  shows "trim s = s"
proof -
  from assms(1,2) have front: "dropWhile is_space s = s"
    by (cases s) simp_all
  from assms(1,3) have "dropWhile is_space (rev s) = rev s"
    by (cases "rev s") (simp_all add: last_rev [symmetric] del: last_rev)
  with front show ?thesis
    by (simp add: trim_def)
qed

lemma in_order_join: "in_order fs (p @ join sep fs)"
proof (induction sep fs arbitrary: p rule: join.induct)
  case (1 sep)
  show ?case by simp
next
  case (2 sep x)
  have "p @ x = p @ x @ []" by simp
  then show ?case by (auto intro: exI [of _ p])
next
  case (3 sep x y ys)
  have "in_order (y # ys) (sep @ join sep (y # ys))"
    by (rule "3.IH")
  then show ?case
    by (auto intro!: exI [of _ p] exI [of _ "sep @ join sep (y # ys)"] simp del: in_order.simps(2))
       (simp add: exI [of _ p])
qed

lemma join_nonempty: "xs \<noteq> [] \<Longrightarrow> last xs \<noteq> [] \<Longrightarrow> join sep xs \<noteq> []"
  by (induction sep xs rule: join.induct) auto

lemma last_join:
  "xs \<noteq> [] \<Longrightarrow> last xs \<noteq> [] \<Longrightarrow> last (join sep xs) = last (last xs)"
  by (induction sep xs rule: join.induct) (auto simp: join_nonempty)

lemma join_eq_Nil: "join sep (x # xs) = [] \<Longrightarrow> x = []"
  by (cases xs) simp_all

lemma extractAdfText_walk:
  "extractAdfText (buildAdf d acs) = trim (join '' '' (walk (buildAdf d acs)))"
proof -
  have "adf_content (buildAdf d acs) \<noteq> None"
    by (simp add: buildAdf_def)
  then show ?thesis
    by (auto simp: extractAdfText_def split: option.splits)
qed

section \<open>Round trip through the document format\<close>

text \<open>
  Claim C8, as the code has it. For a non-empty description and a non-empty list of
  acceptance criteria, \<open>extractAdfText (buildAdf d acs)\<close> is the description, the heading
  text and the criteria joined by single spaces, with the white space at both ends of
  that string removed. When the description does not begin with white space and the last
  criterion is non-empty and does not end with white space, nothing is removed, and the
  extracted text contains the description and every criterion, in their original order.
\<close>

theorem extractAdfText_buildAdf:
  assumes "d \<noteq> []" and "acs \<noteq> []"
  shows "extractAdfText (buildAdf d acs) = trim (join '' '' (d # ''Acceptance Criteria'' # acs)) \<and>
         (\<not> is_space (hd d) \<and> last acs \<noteq> [] \<and> \<not> is_space (last (last acs)) \<longrightarrow>
            in_order (d # acs) (extractAdfText (buildAdf d acs)))"
proof -
  let ?all = "d # ''Acceptance Criteria'' # acs"
  have ex: "extractAdfText (buildAdf d acs) = trim (join '' '' ?all)"
    using assms by (simp add: extractAdfText_walk walk_buildAdf)
  have "in_order (d # acs) (trim (join '' '' ?all))"
    if clean: "\<not> is_space (hd d)" "last acs \<noteq> []" "\<not> is_space (last (last acs))"
  proof -
    from assms obtain a as where acs: "acs = a # as"
      by (cases acs) auto
    have last_all: "last ?all = last acs"
      using assms by simp
    have ne: "join '' '' ?all \<noteq> []"
      using assms by simp
    have hd_all: "hd (join '' '' ?all) = hd d"
      using assms by simp
    have "last (join '' '' ?all) = last (last ?all)"
      by (rule last_join) (use clean last_all in simp_all)
    with clean last_all have "\<not> is_space (last (join '' '' ?all))"
      by simp
    with ne hd_all clean have tr: "trim (join '' '' ?all) = join '' '' ?all"
      by (simp add: trim_unchanged)
    have "in_order acs (('' '' @ ''Acceptance Criteria'' @ '' '') @ join '' '' acs)"
      by (rule in_order_join)
    then have rest: "in_order acs ('' '' @ join '' '' (''Acceptance Criteria'' # acs))"
      by (simp add: acs del: in_order.simps(2))
    have j: "join '' '' ?all = [] @ d @ ('' '' @ join '' '' (''Acceptance Criteria'' # acs))"
      by simp
    from rest have "in_order (d # acs) (join '' '' ?all)"
      unfolding j in_order.simps(2) [of d acs] by blast
    then show ?thesis
      unfolding tr .
  qed
  with ex show ?thesis
    by simp
qed

theorem extractAdfText_buildAdf_witness:
  "extractAdfText (buildAdf ''Add login'' [''form shown'', ''token stored'']) =
     ''Add login Acceptance Criteria form shown token stored'' \<and>
   in_order [''Add login'', ''form shown'', ''token stored'']
     (extractAdfText (buildAdf ''Add login'' [''form shown'', ''token stored'']))"
proof -
  have ne: "''Add login'' \<noteq> []" "[''form shown'', ''token stored''] \<noteq> []"
    by simp_all
  note t = extractAdfText_buildAdf [OF ne]
  have clean: "\<not> is_space (hd ''Add login'') \<and> last [''form shown'', ''token stored''] \<noteq> [] \<and>
      \<not> is_space (last (last [''form shown'', ''token stored'']))"
    by (simp add: is_space_def)
  from t clean have io: "in_order [''Add login'', ''form shown'', ''token stored'']
      (extractAdfText (buildAdf ''Add login'' [''form shown'', ''token stored'']))"
    by blast
  from t have "extractAdfText (buildAdf ''Add login'' [''form shown'', ''token stored'']) =
      trim (join '' '' [''Add login'', ''Acceptance Criteria'', ''form shown'', ''token stored''])"
    by blast
  also have "\<dots> = ''Add login Acceptance Criteria form shown token stored''"
    by (simp add: trim_def is_space_def)
  finally show ?thesis
    using io by blast
qed

text \<open>
  The same claim as the specification words it, for every non-empty description, fails:
  \<^verbatim>\<open>trim()\<close> removes the space that begins the description \<^verbatim>\<open>" a"\<close>, and the extracted
  text \<^verbatim>\<open>"a Acceptance Criteria b"\<close> does not contain it.
\<close>

theorem extractAdfText_buildAdf_counterexample:
  "'' a'' \<noteq> [] \<and> [''b''] \<noteq> [] \<and>
   extractAdfText (buildAdf '' a'' [''b'']) = ''a Acceptance Criteria b'' \<and>
   \<not> in_order ['' a'', ''b''] (extractAdfText (buildAdf '' a'' [''b'']))"
proof -
  have ex: "extractAdfText (buildAdf '' a'' [''b'']) = ''a Acceptance Criteria b''"
    by (simp add: extractAdfText_walk walk_buildAdf trim_def is_space_def)
  have "\<not> sublist '' a'' ''a Acceptance Criteria b''"
    by code_simp
  then have "\<not> in_order ['' a'', ''b''] ''a Acceptance Criteria b''"
    by (auto simp: sublist_def)
  with ex show ?thesis
    by simp
qed

section \<open>Properties of the generation adapter\<close>

lemma dropWhile_all: "\<forall>c\<in>set ws. P c \<Longrightarrow> dropWhile P (ws @ rest) = dropWhile P rest"
  by (induction ws) simp_all

lemma fence_not_space: "\<not> is_space (CHR 0x60)"
  by (simp add: is_space_def)

lemma dropWhile_before_fence:
  "dropWhile is_space (body @ fence @ rest) = dropWhile is_space body @ fence @ rest"
  by (induction body) (simp_all add: fence_def fence_not_space)

lemma strip_open_fenced:
  assumes "toLowerCase tag = ''json''" and "\<forall>c\<in>set ws. is_space c"
  shows "strip_open (fence @ tag @ ws @ body @ fence @ rest) = dropWhile is_space body @ fence @ rest"
proof -
  from assms(1) have "length (toLowerCase tag) = length ''json''"
    by simp
  then have len: "length tag = 4"
    by (simp add: toLowerCase_def)
  have "take 3 (fence @ tag @ ws @ body @ fence @ rest) = fence"
    by (simp add: fence_def)
  moreover have "take 4 (drop 3 (fence @ tag @ ws @ body @ fence @ rest)) = tag"
    using len by (simp add: fence_def)
  moreover have "drop 7 (fence @ tag @ ws @ body @ fence @ rest) = ws @ body @ fence @ rest"
    using len by (simp add: fence_def)
  ultimately show ?thesis
    using assms by (simp add: strip_open_def dropWhile_all dropWhile_before_fence)
qed

lemma strip_close_fenced:
  assumes "\<forall>c\<in>set ws. is_space c"
  shows "strip_close (b @ fence @ ws) = b"
proof -
  have "dropWhile is_space (rev ws @ rev fence @ rev b) = dropWhile is_space (rev fence @ rev b)"
    using assms by (intro dropWhile_all) simp
  also have "\<dots> = rev fence @ rev b"
    by (simp add: fence_def fence_not_space)
  finally have "rev (dropWhile is_space (rev (b @ fence @ ws))) = b @ fence"
    by simp
  then show ?thesis
    by (simp add: strip_close_def Let_def suffix_def) (simp add: fence_def)
qed

lemma trim_dropWhile: "trim (dropWhile is_space s) = trim s"
  by (simp add: trim_def)

lemma stripFences_fenced:
  assumes "toLowerCase tag = ''json''" and "\<forall>c\<in>set ws. is_space c" and "\<forall>c\<in>set ws'. is_space c"
  shows "stripFences (fence @ tag @ ws @ body @ fence @ ws') = trim body"
  using assms by (simp add: stripFences_def strip_open_fenced strip_close_fenced trim_dropWhile)

lemma slice0_nonneg: "0 \<le> n \<Longrightarrow> slice0 xs n = take (nat n) xs"
  by (simp add: slice0_def)

text \<open>
  Claim C5, as the code has it. When the parsed response is an object whose \<^verbatim>\<open>subtasks\<close>
  member is an array and the requested count is not negative: if the array is longer than the requested
  count, \<open>groqGenerate\<close> returns the object with \<^verbatim>\<open>subtasks\<close> replaced by its first
  requested-count elements, in their order, and every other member as it was; if the array
  has at most the requested count of elements, the parsed object is returned unmodified.
\<close>

theorem groqGenerate_truncates:
  assumes "JSON_parse (stripFences (rawContent content)) = Some (JObj members)"
    and "map_of members ''subtasks'' = Some (JArr subtasks)"
    and "0 \<le> numSubtasks"
  shows "(int (length subtasks) > numSubtasks \<longrightarrow>
           (\<exists>members'. groqGenerate JSON_parse (ReplyOk content) numSubtasks = Inr (JObj members') \<and>
              map_of members' ''subtasks'' = Some (JArr (take (nat numSubtasks) subtasks)) \<and>
              map fst members' = map fst members \<and>
              (\<forall>k. k \<noteq> ''subtasks'' \<longrightarrow> map_of members' k = map_of members k))) \<and>
         (int (length subtasks) \<le> numSubtasks \<longrightarrow>
           groqGenerate JSON_parse (ReplyOk content) numSubtasks = Inr (JObj members))"
proof -
  from assms(2) have key: "''subtasks'' \<in> set (map fst members)"
    by (metis map_of_eq_None_iff option.distinct(1) set_map)
  have mem: "subtasks_member (JObj members) = Some (JArr subtasks)"
    using assms(2) by (simp add: subtasks_member_def)
  show ?thesis
  proof (intro conjI impI)
    assume long: "int (length subtasks) > numSubtasks"
    let ?ms = "AList.update ''subtasks'' (JArr (take (nat numSubtasks) subtasks)) members"
    have "groqGenerate JSON_parse (ReplyOk content) numSubtasks = Inr (JObj ?ms)"
      using assms long mem by (simp add: groqGenerate_def set_subtasks_def slice0_nonneg)
    moreover have "map_of ?ms ''subtasks'' = Some (JArr (take (nat numSubtasks) subtasks))"
      by (simp add: update_conv')
    moreover have "map fst ?ms = map fst members"
      using key by (simp add: update_keys)
    moreover have "\<forall>k. k \<noteq> ''subtasks'' \<longrightarrow> map_of ?ms k = map_of members k"
      by (simp add: update_conv')
    ultimately show "\<exists>members'. groqGenerate JSON_parse (ReplyOk content) numSubtasks = Inr (JObj members') \<and>
        map_of members' ''subtasks'' = Some (JArr (take (nat numSubtasks) subtasks)) \<and>
        map fst members' = map fst members \<and>
        (\<forall>k. k \<noteq> ''subtasks'' \<longrightarrow> map_of members' k = map_of members k)"
      by blast
  next
    assume "int (length subtasks) \<le> numSubtasks"
    then show "groqGenerate JSON_parse (ReplyOk content) numSubtasks = Inr (JObj members)"
      using assms mem by (simp add: groqGenerate_def)
  qed
qed

theorem groqGenerate_truncates_witness:
  \<open>json_parse (stripFences (rawContent (Some ''{"subtasks": [1, 2, 3], "title": "t"}''))) =
     Some (JObj [(''subtasks'', JArr [JNum ''1'', JNum ''2'', JNum ''3'']), (''title'', JStr ''t'')]) \<and>
   (\<exists>members'.
      groqGenerate json_parse (ReplyOk (Some ''{"subtasks": [1, 2, 3], "title": "t"}'')) 2 =
        Inr (JObj members') \<and>
      map_of members' ''subtasks'' = Some (JArr [JNum ''1'', JNum ''2'']) \<and>
      map_of members' ''title'' = Some (JStr ''t'')) \<and>
   groqGenerate json_parse (ReplyOk (Some ''{"subtasks": [1, 2, 3], "title": "t"}'')) 3 =
     Inr (JObj [(''subtasks'', JArr [JNum ''1'', JNum ''2'', JNum ''3'']), (''title'', JStr ''t'')])\<close>
proof -
  let ?body = \<open>''{"subtasks": [1, 2, 3], "title": "t"}''\<close>
  let ?ms = "[(''subtasks'', JArr [JNum ''1'', JNum ''2'', JNum ''3'']), (''title'', JStr ''t'')]"
  have p: "json_parse (stripFences (rawContent (Some ?body))) = Some (JObj ?ms)"
    by code_simp
  have m: "map_of ?ms ''subtasks'' = Some (JArr [JNum ''1'', JNum ''2'', JNum ''3''])"
    by simp
  have two: "(0::int) \<le> 2" and three: "(0::int) \<le> 3"
    by simp_all
  note t = groqGenerate_truncates [where JSON_parse = json_parse and content = "Some ?body", OF p m]
  have long: "(2::int) < int (length [JNum ''1'', JNum ''2'', JNum ''3''])"
    by simp
  from t [OF two] long obtain members'
    where g: "groqGenerate json_parse (ReplyOk (Some ?body)) 2 = Inr (JObj members')"
      and s: "map_of members' ''subtasks'' = Some (JArr (take (nat 2) [JNum ''1'', JNum ''2'', JNum ''3'']))"
      and o: "\<forall>k. k \<noteq> ''subtasks'' \<longrightarrow> map_of members' k = map_of ?ms k"
    by blast
  from s have s': "map_of members' ''subtasks'' = Some (JArr [JNum ''1'', JNum ''2''])"
    by simp
  from o have "map_of members' ''title'' = map_of ?ms ''title''"
    by simp
  then have o': "map_of members' ''title'' = Some (JStr ''t'')"
    by simp
  have short: "int (length [JNum ''1'', JNum ''2'', JNum ''3'']) \<le> 3"
    by simp
  from t [OF three] short have u: "groqGenerate json_parse (ReplyOk (Some ?body)) 3 = Inr (JObj ?ms)"
    by blast
  from g s' o' have "\<exists>members'. groqGenerate json_parse (ReplyOk (Some ?body)) 2 = Inr (JObj members') \<and>
      map_of members' ''subtasks'' = Some (JArr [JNum ''1'', JNum ''2'']) \<and>
      map_of members' ''title'' = Some (JStr ''t'')"
    by blast
  with p u show ?thesis
    by blast
qed

text \<open>
  The claim as the specification words it, for every requested count, fails on a
  negative one, which the form can give: \<^verbatim>\<open>slice(0, -1)\<close> drops the last element, and of
  three subtasks the first two are returned, which is neither the first requested-count
  subtasks nor the array unmodified.
\<close>

theorem groqGenerate_truncates_counterexample:
  \<open>json_parse (stripFences (rawContent (Some ''{"subtasks": [1, 2, 3]}''))) =
     Some (JObj [(''subtasks'', JArr [JNum ''1'', JNum ''2'', JNum ''3''])]) \<and>
   groqGenerate json_parse (ReplyOk (Some ''{"subtasks": [1, 2, 3]}'')) (- 1) =
     Inr (JObj [(''subtasks'', JArr [JNum ''1'', JNum ''2''])])\<close>
  by code_simp

text \<open>
  Claim C6, as the code has it. Before parsing, \<open>groqGenerate\<close> removes an opening fence
  of three backquotes followed by \<^verbatim>\<open>json\<close> in either case with the white space after it, a
  closing fence of three backquotes with the white space after it, and the white space at
  both ends. It fails with the invalid-JSON error exactly when the stripped text does not
  parse; and when the text parses to a value other than \<^verbatim>\<open>null\<close>, it fails with the
  missing-subtasks error exactly when that value has no \<^verbatim>\<open>subtasks\<close> member that is an
  array.
\<close>

theorem groqGenerate_parse_errors:
  "(toLowerCase tag = ''json'' \<and> (\<forall>c\<in>set ws. is_space c) \<and> (\<forall>c\<in>set ws'. is_space c) \<longrightarrow>
      stripFences (fence @ tag @ ws @ body @ fence @ ws') = trim body) \<and>
   (groqGenerate JSON_parse (ReplyOk content) n = Inl InvalidJson \<longleftrightarrow>
      JSON_parse (stripFences (rawContent content)) = None) \<and>
   (\<forall>parsed. JSON_parse (stripFences (rawContent content)) = Some parsed \<and> parsed \<noteq> JNull \<longrightarrow>
      (groqGenerate JSON_parse (ReplyOk content) n = Inl MissingSubtasks \<longleftrightarrow>
         (\<forall>xs. subtasks_member parsed \<noteq> Some (JArr xs))))"
proof (intro conjI allI impI)
  assume "toLowerCase tag = ''json'' \<and> (\<forall>c\<in>set ws. is_space c) \<and> (\<forall>c\<in>set ws'. is_space c)"
  then show "stripFences (fence @ tag @ ws @ body @ fence @ ws') = trim body"
    by (simp add: stripFences_fenced)
next
  show "groqGenerate JSON_parse (ReplyOk content) n = Inl InvalidJson \<longleftrightarrow>
      JSON_parse (stripFences (rawContent content)) = None"
    by (simp add: groqGenerate_def split: option.splits json.splits)
next
  fix parsed
  assume "JSON_parse (stripFences (rawContent content)) = Some parsed \<and> parsed \<noteq> JNull"
  then show "groqGenerate JSON_parse (ReplyOk content) n = Inl MissingSubtasks \<longleftrightarrow>
      (\<forall>xs. subtasks_member parsed \<noteq> Some (JArr xs))"
    by (simp add: groqGenerate_def split: option.splits json.splits)
qed

theorem groqGenerate_parse_errors_witness:
  \<open>stripFences (fence @ ''JSON'' @ [CHR 0x0A] @ ''{"subtasks": []} '' @ fence @ [CHR 0x0A]) =
     ''{"subtasks": []}'' \<and>
   json_parse (stripFences (rawContent (Some ''{"subtasks": 3}''))) =
     Some (JObj [(''subtasks'', JNum ''3'')]) \<and>
   groqGenerate json_parse (ReplyOk (Some ''{"subtasks": 3}'')) 5 = Inl MissingSubtasks \<and>
   json_parse (stripFences (rawContent (Some ''{"subtasks": ''))) = None \<and>
   groqGenerate json_parse (ReplyOk (Some ''{"subtasks": '')) 5 = Inl InvalidJson\<close>
proof -
  note t = groqGenerate_parse_errors
  have lower: "toLowerCase ''JSON'' = ''json'' \<and> (\<forall>c\<in>set [CHR 0x0A]. is_space c) \<and>
      (\<forall>c\<in>set [CHR 0x0A]. is_space c)"
    by code_simp
  from t [of "''JSON''" "[CHR 0x0A]" "[CHR 0x0A]"] lower
  have \<open>stripFences (fence @ ''JSON'' @ [CHR 0x0A] @ ''{"subtasks": []} '' @ fence @ [CHR 0x0A]) =
      trim ''{"subtasks": []} ''\<close>
    by blast
  moreover have \<open>trim ''{"subtasks": []} '' = ''{"subtasks": []}''\<close>
    by (simp add: trim_def is_space_def)
  moreover have p1: \<open>json_parse (stripFences (rawContent (Some ''{"subtasks": 3}''))) =
      Some (JObj [(''subtasks'', JNum ''3'')])\<close>
    by code_simp
  moreover have \<open>groqGenerate json_parse (ReplyOk (Some ''{"subtasks": 3}'')) 5 = Inl MissingSubtasks\<close>
    using t [of "[]" "[]" "[]" "[]" json_parse \<open>Some ''{"subtasks": 3}''\<close> 5] p1
    by (simp add: subtasks_member_def)
  moreover have p2: \<open>json_parse (stripFences (rawContent (Some ''{"subtasks": ''))) = None\<close>
    by code_simp
  moreover have \<open>groqGenerate json_parse (ReplyOk (Some ''{"subtasks": '')) 5 = Inl InvalidJson\<close>
    using t [of "[]" "[]" "[]" "[]" json_parse \<open>Some ''{"subtasks": ''\<close> 5] p2
    by blast
  ultimately show ?thesis
    by simp
qed

text \<open>
  The claim as the specification words it fails on a body fenced without the language
  tag: the opening fence stays, the text handed to the parser begins with three
  backquotes, and the body, valid JSON between its fences, is rejected as invalid JSON.
\<close>

theorem groqGenerate_parse_errors_counterexample:
  \<open>json_parse ''{"subtasks": []}'' = Some (JObj [(''subtasks'', JArr [])]) \<and>
   stripFences (fence @ [CHR 0x0A] @ ''{"subtasks": []}'' @ [CHR 0x0A] @ fence) =
     fence @ [CHR 0x0A] @ ''{"subtasks": []}'' \<and>
   groqGenerate json_parse
     (ReplyOk (Some (fence @ [CHR 0x0A] @ ''{"subtasks": []}'' @ [CHR 0x0A] @ fence))) 5 =
     Inl InvalidJson\<close>
  by code_simp

section \<open>Properties of the schema resolver\<close>

lemma in_set_update:
  "distinct (map fst al) \<Longrightarrow> p \<in> set (AList.update k v al) \<Longrightarrow>
     p = (k, v) \<or> (p \<in> set al \<and> fst p \<noteq> k)"
proof (induction al)
  case Nil
  then show ?case by simp
next
  case (Cons a al)
  show ?case
  proof (cases "fst a = k")
    case True
    with Cons.prems have "p = (k, v) \<or> p \<in> set al"
      by simp
    moreover have "fst q \<noteq> k" if "q \<in> set al" for q
      using Cons.prems(1) True that by (metis distinct.simps(2) list.simps(9) image_eqI set_map)
    ultimately show ?thesis
      by (metis list.set_intros(2))
  next
    case False
    with Cons.prems have "p = a \<or> p \<in> set (AList.update k v al)"
      by simp
    then show ?thesis
    proof
      assume "p = a"
      with False show ?thesis by simp
    next
      assume "p \<in> set (AList.update k v al)"
      with Cons.IH Cons.prems(1) show ?thesis by auto
    qed
  qed
qed

lemma fold_fold_concat: "fold (\<lambda>xs m. fold f xs m) xss m = fold f (concat xss) m"
  by (induction xss arbitrary: m) simp_all

lemma statusMapOf_snoc: "statusMapOf (xs @ [x]) = AList.update (s_name x) x (statusMapOf xs)"
  by (simp add: statusMapOf_def)

lemma statusMapOf_distinct: "distinct (map fst (statusMapOf xs))"
proof (induction xs rule: rev_induct)
  case Nil
  show ?case by (simp add: statusMapOf_def)
next
  case (snoc x xs)
  then show ?case
    by (simp only: statusMapOf_snoc distinct_update)
qed

lemma statusMapOf_keys: "map fst (statusMapOf xs) = rev (remdups (rev (map s_name xs)))"
proof (induction xs rule: rev_induct)
  case Nil
  show ?case by (simp add: statusMapOf_def)
next
  case (snoc x xs)
  have keyset: "set (map fst (statusMapOf xs)) = s_name ` set xs"
    by (simp only: snoc) simp
  show ?case
  proof (cases "s_name x \<in> s_name ` set xs")
    case True
    then have "map fst (statusMapOf (xs @ [x])) = map fst (statusMapOf xs)"
      using keyset by (simp only: statusMapOf_snoc update_keys if_True)
    also have "\<dots> = rev (remdups (rev (map s_name (xs @ [x]))))"
      using True by (simp add: snoc)
    finally show ?thesis .
  next
    case False
    then have "map fst (statusMapOf (xs @ [x])) = map fst (statusMapOf xs) @ [s_name x]"
      using keyset by (simp only: statusMapOf_snoc update_keys if_False)
    also have "\<dots> = rev (remdups (rev (map s_name (xs @ [x]))))"
      using False by (simp add: snoc)
    finally show ?thesis .
  qed
qed

lemma statusMapOf_objects:
  "p \<in> set (statusMapOf xs) \<Longrightarrow>
     fst p = s_name (snd p) \<and> snd p = last (filter (\<lambda>t. s_name t = fst p) xs)"
proof (induction xs arbitrary: p rule: rev_induct)
  case Nil
  then show ?case by (simp add: statusMapOf_def)
next
  case (snoc x xs)
  from snoc.prems have "p \<in> set (AList.update (s_name x) x (statusMapOf xs))"
    by (simp only: statusMapOf_snoc)
  from in_set_update [OF statusMapOf_distinct this]
  show ?case
  proof
    assume "p = (s_name x, x)"
    then show ?thesis by simp
  next
    assume old: "p \<in> set (statusMapOf xs) \<and> fst p \<noteq> s_name x"
    then have ih: "fst p = s_name (snd p) \<and> snd p = last (filter (\<lambda>t. s_name t = fst p) xs)"
      using snoc.IH by blast
    from old have ne: "\<not> s_name x = fst p"
      by metis
    have feq: "filter (\<lambda>t. s_name t = fst p) (xs @ [x]) = filter (\<lambda>t. s_name t = fst p) xs"
      using ne by simp
    show ?thesis
      unfolding feq by (rule ih)
  qed
qed

lemma statusMapOf_name: "p \<in> set (statusMapOf xs) \<Longrightarrow> s_name (snd p) = fst p"
  using statusMapOf_objects [of p xs] by metis

lemma statusMapOf_last:
  "p \<in> set (statusMapOf xs) \<Longrightarrow> snd p = last (filter (\<lambda>t. s_name t = fst p) xs)"
  using statusMapOf_objects [of p xs] by blast

lemma statusMapOf_names: "map s_name (map snd (statusMapOf xs)) = map fst (statusMapOf xs)"
proof -
  have "map (\<lambda>p. s_name (snd p)) (statusMapOf xs) = map fst (statusMapOf xs)"
    by (rule map_cong [OF refl]) (rule statusMapOf_name)
  then show ?thesis
    by (simp add: comp_def)
qed

text \<open>
  Claim C7, as the code has it. On a statuses response, \<open>fetchProjectStatuses\<close> returns
  one flat list without two statuses of the same name, the names in the order of their
  first occurrence (\<open>rev (remdups (rev names))\<close> keeps the first of equal names); the status
  object kept for a name is the last one met with that name: \<^verbatim>\<open>statusMap.set\<close> overwrites.
\<close>

theorem fetchProjectStatuses_dedup:
  assumes "get_statuses T (calls w) projectKey = Inr data"
  shows "\<exists>res. fst (fetchProjectStatuses T projectKey w) = Inr res \<and>
           distinct (map s_name res) \<and>
           map s_name res = rev (remdups (rev (map s_name (concat data)))) \<and>
           (\<forall>s\<in>set res. s = last (filter (\<lambda>t. s_name t = s_name s) (concat data)))"
proof -
  let ?al = "statusMapOf (concat data)"
  have flat: "fold (\<lambda>type statusMap. fold (\<lambda>s m. AList.update (s_name s) s m) type statusMap) data [] = ?al"
    unfolding statusMapOf_def by (rule fold_fold_concat)
  have res: "fst (fetchProjectStatuses T projectKey w) = Inr (map snd ?al)"
    using assms by (simp add: fetchProjectStatuses_def flat)
  have names: "map s_name (map snd ?al) = rev (remdups (rev (map s_name (concat data))))"
    by (simp only: statusMapOf_names statusMapOf_keys)
  have dist: "distinct (map s_name (map snd ?al))"
    by (simp only: statusMapOf_names statusMapOf_distinct)
  have last: "s = last (filter (\<lambda>t. s_name t = s_name s) (concat data))" if "s \<in> set (map snd ?al)" for s
  proof -
    from that obtain p where p: "p \<in> set ?al" and s: "s = snd p"
      by auto
    from statusMapOf_last [OF p] statusMapOf_name [OF p] s show ?thesis
      by metis
  qed
  from res names dist last show ?thesis
    by blast
qed

theorem fetchProjectStatuses_dedup_witness:
  "get_statuses sample_tracker (calls fresh) ''KAN'' = Inr sample_statuses \<and>
   (\<exists>res. fst (fetchProjectStatuses sample_tracker ''KAN'' fresh) = Inr res \<and>
      distinct (map s_name res) \<and>
      map s_name res = [''To Do'', ''Done'', ''Review''] \<and>
      (\<forall>s\<in>set res. s = last (filter (\<lambda>t. s_name t = s_name s) (concat sample_statuses))))"
proof -
  have h: "get_statuses sample_tracker (calls fresh) ''KAN'' = Inr sample_statuses"
    by (simp add: sample_tracker_def)
  have "rev (remdups (rev (map s_name (concat sample_statuses)))) = [''To Do'', ''Done'', ''Review'']"
    by (simp add: sample_statuses_def)
  with fetchProjectStatuses_dedup [OF h] h show ?thesis
    by (simp only:)
qed

text \<open>
  The claim as the specification words it, that the first status met is the one kept,
  fails: of the two statuses named \<^verbatim>\<open>Done\<close>, the first has the identifier 2 and the list
  returned has the second, with the identifier 7, at the place of the first.
\<close>

theorem fetchProjectStatuses_dedup_counterexample:
  "hd (filter (\<lambda>s. s_name s = ''Done'') (concat sample_statuses)) = \<lparr>s_name = ''Done'', s_id = ''2''\<rparr> \<and>
   fst (fetchProjectStatuses sample_tracker ''KAN'' fresh) =
     Inr [\<lparr>s_name = ''To Do'', s_id = ''1''\<rparr>, \<lparr>s_name = ''Done'', s_id = ''7''\<rparr>,
          \<lparr>s_name = ''Review'', s_id = ''8''\<rparr>]"
  by (simp add: fetchProjectStatuses_def sample_tracker_def sample_statuses_def)




lemma find_first_match:
  "P m \<Longrightarrow> \<forall>t\<in>set before. \<not> P t \<Longrightarrow> find P (before @ m # after) = Some m"
  by (induction before) simp_all





section \<open>Properties of the status transition\<close>

text \<open>
  Claim C9. \<open>jiraTransition\<close> first requests the transitions available to the issue. When
  that request is answered with a list: if no transition has the target name, compared
  in lower case, nothing more is sent and the operation returns normally; otherwise the
  first transition with that name is executed by its identifier, the transition request
  being the only further request, and the operation returns what that request returns.
\<close>

theorem jiraTransition_by_name:
  "(\<exists>more. calls (snd (jiraTransition T issueKey targetStatus w)) = calls w @ GetTransitions issueKey # more) \<and>
   (\<forall>ts. get_transitions T (calls w) issueKey = Inr ts \<longrightarrow>
      ((\<forall>t\<in>set ts. toLowerCase (t_name t) \<noteq> toLowerCase targetStatus) \<longrightarrow>
         jiraTransition T issueKey targetStatus w =
           (Inr (), w\<lparr>calls := calls w @ [GetTransitions issueKey]\<rparr>)) \<and>
      (\<forall>before m after.
         ts = before @ m # after \<and> toLowerCase (t_name m) = toLowerCase targetStatus \<and>
         (\<forall>t\<in>set before. toLowerCase (t_name t) \<noteq> toLowerCase targetStatus) \<longrightarrow>
         jiraTransition T issueKey targetStatus w =
           (post_transition T (calls w @ [GetTransitions issueKey]) issueKey (t_id m),
            w\<lparr>calls := calls w @ [GetTransitions issueKey, PostTransition issueKey (t_id m)]\<rparr>)))"
proof (intro conjI allI impI)
  show "\<exists>more. calls (snd (jiraTransition T issueKey targetStatus w)) = calls w @ GetTransitions issueKey # more"
    by (simp add: jiraTransition_def send_def split: sum.splits option.splits)
next
  fix ts
  assume ts: "get_transitions T (calls w) issueKey = Inr ts"
    and no: "\<forall>t\<in>set ts. toLowerCase (t_name t) \<noteq> toLowerCase targetStatus"
  from no have "find (\<lambda>t. toLowerCase (t_name t) = toLowerCase targetStatus) ts = None"
    by (simp add: find_None_iff)
  with ts show "jiraTransition T issueKey targetStatus w =
      (Inr (), w\<lparr>calls := calls w @ [GetTransitions issueKey]\<rparr>)"
    by (simp add: jiraTransition_def send_def)
next
  fix ts before m after
  assume ts: "get_transitions T (calls w) issueKey = Inr ts"
    and hit: "ts = before @ m # after \<and> toLowerCase (t_name m) = toLowerCase targetStatus \<and>
      (\<forall>t\<in>set before. toLowerCase (t_name t) \<noteq> toLowerCase targetStatus)"
  from hit have "find (\<lambda>t. toLowerCase (t_name t) = toLowerCase targetStatus) (before @ m # after) = Some m"
    by (intro find_first_match) simp_all
  with ts hit show "jiraTransition T issueKey targetStatus w =
      (post_transition T (calls w @ [GetTransitions issueKey]) issueKey (t_id m),
       w\<lparr>calls := calls w @ [GetTransitions issueKey, PostTransition issueKey (t_id m)]\<rparr>)"
    by (simp add: jiraTransition_def send_def)
qed

lemma sample_lower:
  "toLowerCase ''To Do'' = ''to do''"
  "toLowerCase ''In Progress'' = ''in progress''"
  "toLowerCase ''in progress'' = ''in progress''"
  "toLowerCase ''Closed'' = ''closed''"
  by code_simp+

theorem jiraTransition_by_name_witness:
  "jiraTransition sample_tracker ''KAN-10'' ''Closed'' fresh =
     (Inr (), fresh\<lparr>calls := [GetTransitions ''KAN-10'']\<rparr>) \<and>
   jiraTransition sample_tracker ''KAN-10'' ''in progress'' fresh =
     (Inr (), fresh\<lparr>calls := [GetTransitions ''KAN-10'', PostTransition ''KAN-10'' ''21'']\<rparr>)"
proof -
  let ?ts = "[\<lparr>t_id = ''11'', t_name = ''To Do''\<rparr>, \<lparr>t_id = ''21'', t_name = ''In Progress''\<rparr>]"
  have ts: "get_transitions sample_tracker (calls fresh) ''KAN-10'' = Inr ?ts"
    by (simp add: sample_tracker_def)
  note t = jiraTransition_by_name [where T = sample_tracker and issueKey = "''KAN-10''" and w = fresh,
      THEN conjunct2, rule_format, OF ts]
  have no: "\<forall>t\<in>set ?ts. toLowerCase (t_name t) \<noteq> toLowerCase ''Closed''"
    by (simp add: sample_lower)
  from t [where targetStatus = "''Closed''", THEN conjunct1, THEN mp, OF no]
  have a: "jiraTransition sample_tracker ''KAN-10'' ''Closed'' fresh =
      (Inr (), fresh\<lparr>calls := [GetTransitions ''KAN-10'']\<rparr>)"
    by (simp add: fresh_def)
  have hit: "?ts = [\<lparr>t_id = ''11'', t_name = ''To Do''\<rparr>] @ \<lparr>t_id = ''21'', t_name = ''In Progress''\<rparr> # [] \<and>
      toLowerCase (t_name \<lparr>t_id = ''21'', t_name = ''In Progress''\<rparr>) = toLowerCase ''in progress'' \<and>
      (\<forall>t\<in>set [\<lparr>t_id = ''11'', t_name = ''To Do''\<rparr>]. toLowerCase (t_name t) \<noteq> toLowerCase ''in progress'')"
    by (simp add: sample_lower)
  from t [where targetStatus = "''in progress''", THEN conjunct2, rule_format, OF hit]
  have b: "jiraTransition sample_tracker ''KAN-10'' ''in progress'' fresh =
      (Inr (), fresh\<lparr>calls := [GetTransitions ''KAN-10'', PostTransition ''KAN-10'' ''21'']\<rparr>)"
    by (simp add: fresh_def sample_tracker_def)
  from a b show ?thesis
    by (simp only:)
qed

section \<open>Properties of the creation orchestrator\<close>

lemma issue_posts_append: "issue_posts (xs @ ys) = issue_posts xs @ issue_posts ys"
  by (simp add: issue_posts_def)

lemma issue_puts_append: "issue_puts (xs @ ys) = issue_puts xs @ issue_puts ys"
  by (simp add: issue_puts_def)

lemma quiet_refl: "quiet w w"
  by (simp add: quiet_def issue_posts_def issue_puts_def)

lemma quiet_trans: "quiet a b \<Longrightarrow> quiet b c \<Longrightarrow> quiet a c"
proof -
  assume "quiet a b" and "quiet b c"
  then obtain x y where x: "calls b = calls a @ x" "issue_posts x = []" "issue_puts x = []"
    and y: "calls c = calls b @ y" "issue_posts y = []" "issue_puts y = []"
    unfolding quiet_def by blast
  have "calls c = calls a @ (x @ y)"
    using x(1) y(1) by simp
  moreover have "issue_posts (x @ y) = []" "issue_puts (x @ y) = []"
    using x y by (simp_all add: issue_posts_append issue_puts_append)
  ultimately show ?thesis
    unfolding quiet_def by blast
qed

lemma quiet_send:
  assumes "issue_posts [c] = []" and "issue_puts [c] = []"
  shows "quiet w (send c w)"
  unfolding quiet_def using assms by (intro exI [of _ "[c]"]) (simp add: send_def)

lemma quiet_remember: "quiet w w' \<Longrightarrow> quiet w (remember pk name w')"
  by (simp add: quiet_def remember_def)

lemma quiet_jiraTransition: "quiet w (snd (jiraTransition T k s w))"
proof -
  have g: "quiet w (send (GetTransitions k) w)"
    by (rule quiet_send) (simp_all add: issue_posts_def issue_puts_def)
  have p: "quiet (send (GetTransitions k) w) (send (PostTransition k i) (send (GetTransitions k) w))" for i
    by (rule quiet_send) (simp_all add: issue_posts_def issue_puts_def)
  show ?thesis
    using g quiet_trans [OF g p]
    by (simp add: jiraTransition_def split: sum.splits option.splits)
qed

lemma quiet_transitionIfSet: "quiet w (transitionIfSet T s k w)"
  by (simp add: transitionIfSet_def quiet_refl quiet_jiraTransition)

lemma quiet_jiraAddWatcher: "quiet w (snd (jiraAddWatcher T k u w))"
proof -
  have s: "quiet w (send (GetUserSearch u) w)"
    by (rule quiet_send) (simp_all add: issue_posts_def issue_puts_def)
  have p: "quiet w' (send (PostWatcher k a) w')" for a w'
    by (rule quiet_send) (simp_all add: issue_posts_def issue_puts_def)
  show ?thesis
  proof (cases "CHR ''@'' \<in> set u")
    case True
    then obtain a where "snd (jiraAddWatcher T k u w) = send (PostWatcher k a) (send (GetUserSearch u) w)"
      by (simp add: jiraAddWatcher_def)
    with quiet_trans [OF s p] show ?thesis
      by simp
  next
    case False
    then have "snd (jiraAddWatcher T k u w) = send (PostWatcher k u) w"
      by (simp add: jiraAddWatcher_def)
    with p show ?thesis
      by simp
  qed
qed

lemma quiet_addWatchers: "quiet w (addWatchers T k us w)"
proof (induction us arbitrary: w)
  case Nil
  show ?case by (simp add: addWatchers_def quiet_refl)
next
  case (Cons u us)
  have "addWatchers T k (u # us) w = addWatchers T k us (snd (jiraAddWatcher T k u w))"
    by (simp add: addWatchers_def)
  with quiet_trans [OF quiet_jiraAddWatcher Cons.IH] show ?case
    by simp
qed

lemma quiet_probeCandidates: "quiet w (snd (probeCandidates T pk cs w))"
proof (induction cs arbitrary: w)
  case Nil
  show ?case by (simp add: quiet_remember quiet_refl)
next
  case (Cons c cs)
  have s: "quiet w (send (PostProbe pk c) w)"
    by (rule quiet_send) (simp_all add: issue_posts_def issue_puts_def)
  show ?case
    using quiet_remember [OF s] quiet_trans [OF s Cons.IH] by simp
qed

lemma quiet_detectSubtaskTypeName: "quiet w (snd (detectSubtaskTypeName T pk w))"
proof -
  have s: "quiet w (send (GetCreateMeta pk) w)"
    by (rule quiet_send) (simp_all add: issue_posts_def issue_puts_def)
  show ?thesis
    using quiet_refl [of w] quiet_remember [OF s] quiet_trans [OF s quiet_probeCandidates]
    by (simp add: detectSubtaskTypeName_def split: option.splits)
qed

lemma quiet_resolveTypeName: "quiet w (snd (resolveTypeName T b pk w))"
  by (simp add: resolveTypeName_def quiet_refl quiet_detectSubtaskTypeName)

text \<open>
  What \<open>createOne\<close> does, once the name of the issue type is resolved: the creation
  request decides the result, and the update request, sent when fields are configured,
  does not change it.
\<close>

lemma createOne_unfold:
  assumes "resolveTypeName T (m_breakType m) (m_projectKey m) w = (typeName, w1)"
  shows "createOne render T m pk st w =
     (case post_issue T (calls w1)
             (baseFieldsOf pk (m_projectKey m) (st_title st) (st_description st)
                (st_acceptance_criteria st) typeName) of
        Inl e \<Rightarrow>
          (Inl e,
           send (PostIssue (baseFieldsOf pk (m_projectKey m) (st_title st) (st_description st)
                  (st_acceptance_criteria st) typeName)) w1)
      | Inr key \<Rightarrow>
          (Inr key,
           if has_keys (extraFieldsOf render m)
           then send (PutIssue key (extraFieldsOf render m))
                  (send (PostIssue (baseFieldsOf pk (m_projectKey m) (st_title st) (st_description st)
                     (st_acceptance_criteria st) typeName)) w1)
           else send (PostIssue (baseFieldsOf pk (m_projectKey m) (st_title st) (st_description st)
                  (st_acceptance_criteria st) typeName)) w1))"
  using assms by (simp add: createOne_def jiraCreateSubtask_def split: sum.splits)

lemma createSubtasks_append:
  "createSubtasks render T m pk (pre @ post) keys w =
     (case createSubtasks render T m pk pre keys w of
        ((None, keys'), w') \<Rightarrow> createSubtasks render T m pk post keys' w'
      | ((Some e, keys'), w') \<Rightarrow> ((Some e, keys'), w'))"
  by (induction pre arbitrary: keys w) (simp_all split: prod.splits sum.splits)

lemma createSubtasks_keys:
  "createSubtasks render T m pk sts keys w = ((None, keys'), w') \<Longrightarrow>
     \<exists>ks. keys' = keys @ ks \<and> length ks = length sts"
proof (induction sts arbitrary: keys w)
  case Nil
  then show ?case by simp
next
  case (Cons st sts)
  from Cons.prems obtain k w1 where one: "createOne render T m pk st w = (Inr k, w1)"
    and rest: "createSubtasks render T m pk sts (keys @ [k])
        (addWatchers T k (m_watchers m) (transitionIfSet T (m_jiraStatus m) k w1)) = ((None, keys'), w')"
    by (auto split: prod.splits sum.splits)
  from Cons.IH [OF rest] obtain ks where "keys' = (keys @ [k]) @ ks" and "length ks = length sts"
    by blast
  then have "keys' = keys @ (k # ks) \<and> length (k # ks) = length (st # sts)"
    by simp
  then show ?case
    by blast
qed

lemma createSubtasks_keys_prefix:
  "createSubtasks render T m pk sts keys w = ((err, keys'), w') \<Longrightarrow> prefix keys keys'"
proof (induction sts arbitrary: keys w)
  case Nil
  then show ?case by simp
next
  case (Cons st sts)
  show ?case
  proof (cases "createOne render T m pk st w")
    case (Pair r w1)
    show ?thesis
    proof (cases r)
      case (Inl e)
      with Pair Cons.prems show ?thesis by simp
    next
      case (Inr k)
      with Pair Cons.prems have "createSubtasks render T m pk sts (keys @ [k])
          (addWatchers T k (m_watchers m) (transitionIfSet T (m_jiraStatus m) k w1)) = ((err, keys'), w')"
        by simp
      from Cons.IH [OF this] have "prefix (keys @ [k]) keys'" .
      then show ?thesis
        by (metis append_prefixD)
    qed
  qed
qed

lemma resolveParent_subtasks: "resolveParent T (ai\<lparr>ao_subtasks := sts\<rparr>) w = resolveParent T ai w"
  by (simp add: resolveParent_def Let_def)

lemma resolveParent_keys:
  "resolveParent T ai w = (Inr (pk, keys0), w0) \<Longrightarrow>
     keys0 = (if m_mode (ao_meta ai) = Create then [pk] else [])"
  by (auto simp: resolveParent_def Let_def split: if_splits prod.splits sum.splits)

lemma resolveParent_failure:
  assumes "m_mode (ao_meta ai) = Create" and "post_issue T (calls w) (parentFieldsFor ai) = Inl e"
  shows "resolveParent T ai w = (Inl e, w\<lparr>calls := calls w @ [PostIssue (parentFieldsFor ai)]\<rparr>)"
  using assms by (simp add: resolveParent_def jiraCreateIssue_def parentFieldsFor_def send_def Let_def)

text \<open>
  Claim C3. In create mode, when the creation of the parent fails, the run fails with
  that error, \<^verbatim>\<open>createdKeys\<close> is empty, and the parent's creation request is the only
  request of the run: no subtask creation is attempted.
\<close>

theorem onConfirm_parent_failure:
  assumes "m_mode (ao_meta ai) = Create"
    and "post_issue T (calls w) (parentFieldsFor ai) = Inl e"
  shows "onConfirm render T True (Some ai) w =
           (Some \<lparr>cr_outcome = Failed e, cr_createdKeys = []\<rparr>,
            w\<lparr>calls := calls w @ [PostIssue (parentFieldsFor ai)]\<rparr>) \<and>
         subtask_posts [PostIssue (parentFieldsFor ai)] = []"
proof -
  have "f_parent (parentFieldsFor ai) = None"
    by (simp add: parentFieldsFor_def parentFieldsOf_def)
  then have "subtask_posts [PostIssue (parentFieldsFor ai)] = []"
    by (simp add: subtask_posts_def issue_posts_def)
  moreover have "onConfirm render T True (Some ai) w =
      (Some \<lparr>cr_outcome = Failed e, cr_createdKeys = []\<rparr>,
       w\<lparr>calls := calls w @ [PostIssue (parentFieldsFor ai)]\<rparr>)"
    by (simp add: onConfirm_def resolveParent_failure [OF assms])
  ultimately show ?thesis
    by blast
qed

text \<open>
  A run that ended with \<^verbatim>\<open>showResult\<close>: the parent was resolved and the loop went through
  every subtask.
\<close>

lemma onConfirm_shown:
  assumes "onConfirm render T True (Some ai) w = (Some r, w')" and "cr_outcome r = Shown pk keys"
  shows "\<exists>keys0 w0. resolveParent T ai w = (Inr (pk, keys0), w0) \<and>
           createSubtasks render T (ao_meta ai) pk (ao_subtasks ai) keys0 w0 = ((None, keys), w') \<and>
           cr_createdKeys r = keys"
  using assms
  by (auto simp: onConfirm_def finish_def split: prod.splits sum.splits option.splits)

lemma onConfirm_loop:
  assumes "resolveParent T ai w = (Inr (pk, keys0), w0)"
    and "createSubtasks render T (ao_meta ai) pk (ao_subtasks ai) keys0 w0 = ((err, keys), w')"
  shows "onConfirm render T True (Some ai) w =
           (Some \<lparr>cr_outcome = (case err of None \<Rightarrow> Shown pk keys | Some e \<Rightarrow> Failed e),
                   cr_createdKeys = keys\<rparr>, w')"
  using assms by (simp add: onConfirm_def finish_def split: option.splits)

text \<open>
  Claim C1, as the code has it. Take a run on the subtasks \<open>before @ st # after\<close>, and
  suppose that the run on the subtasks \<open>before\<close> alone ends well, with the keys \<open>keys\<close> and in
  the state \<open>w1\<close>: this is the state of the full run when it reaches \<open>st\<close>. Then \<open>keys\<close> is
  the parent key (in create mode only) followed by one key for each subtask of \<open>before\<close>.
  When the creation request of \<open>st\<close> fails, the full run fails with its error and the
  failed request is the last request of the run: nothing is sent for \<open>after\<close>. The local
  array \<^verbatim>\<open>createdKeys\<close> is then \<open>keys\<close>, but the run reports no key: it shows the message of
  the error only. When the creation request of \<open>st\<close> succeeds with the key \<open>k\<close>, whatever
  becomes of the update request that follows it, \<^verbatim>\<open>createdKeys\<close> begins with \<open>keys\<close> and \<open>k\<close>,
  so do the keys reported if the run reports any, and if \<open>st\<close> is the last subtask the run
  ends with \<^verbatim>\<open>showResult\<close> on these keys.
\<close>

theorem onConfirm_partial_success:
  assumes sts: "ao_subtasks ai = before @ st # after"
    and run1: "onConfirm render T True (Some (ai\<lparr>ao_subtasks := before\<rparr>)) w = (Some r1, w1)"
    and ok1: "cr_outcome r1 = Shown pk keys"
    and ty: "resolveTypeName T (m_breakType (ao_meta ai)) (m_projectKey (ao_meta ai)) w1 = (typeName, w2)"
  shows "(\<exists>ks. length ks = length before \<and>
            keys = (if m_mode (ao_meta ai) = Create then [pk] else []) @ ks) \<and>
         (\<forall>e. post_issue T (calls w2) (subtaskFieldsFor ai pk st typeName) = Inl e \<longrightarrow>
            onConfirm render T True (Some ai) w =
              (Some \<lparr>cr_outcome = Failed e, cr_createdKeys = keys\<rparr>,
               w2\<lparr>calls := calls w2 @ [PostIssue (subtaskFieldsFor ai pk st typeName)]\<rparr>) \<and>
            reportedKeys (Failed e) = None) \<and>
         (\<forall>k. post_issue T (calls w2) (subtaskFieldsFor ai pk st typeName) = Inr k \<longrightarrow>
            (\<exists>r w'. onConfirm render T True (Some ai) w = (Some r, w') \<and>
               prefix (keys @ [k]) (cr_createdKeys r) \<and>
               (\<forall>shown. reportedKeys (cr_outcome r) = Some shown \<longrightarrow> prefix (keys @ [k]) shown) \<and>
               (after = [] \<longrightarrow> cr_outcome r = Shown pk (keys @ [k]) \<and>
                  reportedKeys (cr_outcome r) = Some (keys @ [k]))))"
proof -
  let ?m = "ao_meta ai"
  let ?base = "subtaskFieldsFor ai pk st typeName"
  from onConfirm_shown [OF run1 ok1] obtain keys0 w0
    where rp: "resolveParent T ai w = (Inr (pk, keys0), w0)"
      and loop1: "createSubtasks render T ?m pk before keys0 w0 = ((None, keys), w1)"
    by (auto simp: resolveParent_subtasks)
  have full: "createSubtasks render T ?m pk (ao_subtasks ai) keys0 w0 = createSubtasks render T ?m pk (st # after) keys w1"
    by (simp add: sts createSubtasks_append loop1)
  note one = createOne_unfold [OF ty, of render pk st, folded subtaskFieldsFor_def]
  have a: "\<exists>ks. length ks = length before \<and> keys = (if m_mode ?m = Create then [pk] else []) @ ks"
    using createSubtasks_keys [OF loop1] resolveParent_keys [OF rp] by auto
  have b: "onConfirm render T True (Some ai) w =
      (Some \<lparr>cr_outcome = Failed e, cr_createdKeys = keys\<rparr>, w2\<lparr>calls := calls w2 @ [PostIssue ?base]\<rparr>) \<and>
      reportedKeys (Failed e) = None"
    if "post_issue T (calls w2) ?base = Inl e" for e
  proof -
    from that have "createSubtasks render T ?m pk (st # after) keys w1 = ((Some e, keys), send (PostIssue ?base) w2)"
      by (simp add: one)
    with full have "createSubtasks render T ?m pk (ao_subtasks ai) keys0 w0 = ((Some e, keys), send (PostIssue ?base) w2)"
      by simp
    from onConfirm_loop [OF rp this] show ?thesis
      by (simp add: send_def reportedKeys_def)
  qed
  have c: "\<exists>r w'. onConfirm render T True (Some ai) w = (Some r, w') \<and> prefix (keys @ [k]) (cr_createdKeys r) \<and>
      (\<forall>shown. reportedKeys (cr_outcome r) = Some shown \<longrightarrow> prefix (keys @ [k]) shown) \<and>
      (after = [] \<longrightarrow> cr_outcome r = Shown pk (keys @ [k]) \<and> reportedKeys (cr_outcome r) = Some (keys @ [k]))"
    if "post_issue T (calls w2) ?base = Inr k" for k
  proof -
    from that obtain w3 where co: "createOne render T ?m pk st w1 = (Inr k, w3)"
      by (simp add: one)
    let ?w4 = "addWatchers T k (m_watchers ?m) (transitionIfSet T (m_jiraStatus ?m) k w3)"
    obtain err keys' w' where rest: "createSubtasks render T ?m pk after (keys @ [k]) ?w4 = ((err, keys'), w')"
      by (metis surj_pair)
    from co rest have "createSubtasks render T ?m pk (st # after) keys w1 = ((err, keys'), w')"
      by simp
    with full have loop: "createSubtasks render T ?m pk (ao_subtasks ai) keys0 w0 = ((err, keys'), w')"
      by simp
    note run = onConfirm_loop [OF rp loop]
    have pfx: "prefix (keys @ [k]) keys'"
      by (rule createSubtasks_keys_prefix [OF rest])
    have last: "err = None \<and> keys' = keys @ [k]" if "after = []"
      using rest that by simp
    let ?r = "\<lparr>cr_outcome = (case err of None \<Rightarrow> Shown pk keys' | Some e \<Rightarrow> Failed e), cr_createdKeys = keys'\<rparr>"
    have shown: "prefix (keys @ [k]) ks" if "reportedKeys (cr_outcome ?r) = Some ks" for ks
      using that pfx by (cases err) (simp_all add: reportedKeys_def)
    have fin: "cr_outcome ?r = Shown pk (keys @ [k]) \<and> reportedKeys (cr_outcome ?r) = Some (keys @ [k])"
      if "after = []"
      using last [OF that] by (simp add: reportedKeys_def)
    have "prefix (keys @ [k]) (cr_createdKeys ?r)"
      using pfx by simp
    with run shown fin show ?thesis
      by blast
  qed
  from a b c show ?thesis
    by blast
qed

subsection \<open>The requests of a run\<close>

lemma quietE:
  assumes "quiet w w'"
  obtains new where "calls w' = calls w @ new" and "issue_posts new = []" and "issue_puts new = []"
  using assms unfolding quiet_def by blast

lemma createOne_trace:
  assumes "createOne render T (ao_meta ai) pk st w = (r, w')"
  shows "\<exists>new f. calls w' = calls w @ new \<and> issue_posts new = [f] \<and> creates ai f st \<and>
           (\<forall>p\<in>set (issue_puts new). snd p = extraFieldsOf render (ao_meta ai))"
proof -
  let ?m = "ao_meta ai"
  obtain tn w1 where rt: "resolveTypeName T (m_breakType ?m) (m_projectKey ?m) w = (tn, w1)"
    by (metis surj_pair)
  let ?f = "baseFieldsOf pk (m_projectKey ?m) (st_title st) (st_description st) (st_acceptance_criteria st) tn"
  have "quiet w w1"
    using quiet_resolveTypeName [of w T "m_breakType ?m" "m_projectKey ?m"] rt by simp
  then obtain n1 where n1: "calls w1 = calls w @ n1" "issue_posts n1 = []" "issue_puts n1 = []"
    by (rule quietE)
  have cr: "creates ai ?f st"
    by (simp add: creates_def baseFieldsOf_def)
  note one = createOne_unfold [OF rt, of render pk st]
  consider (fail) "w' = send (PostIssue ?f) w1"
    | (plain) "w' = send (PostIssue ?f) w1"
    | (upd) k where "w' = send (PutIssue k (extraFieldsOf render ?m)) (send (PostIssue ?f) w1)"
    using assms one by (auto split: sum.splits if_splits)
  then show ?thesis
  proof cases
    case fail
    then have "calls w' = calls w @ (n1 @ [PostIssue ?f])"
      by (simp add: send_def n1)
    moreover have "issue_posts (n1 @ [PostIssue ?f]) = [?f]" "issue_puts (n1 @ [PostIssue ?f]) = []"
      using n1 by (simp_all add: issue_posts_append issue_puts_append) (simp_all add: issue_posts_def issue_puts_def)
    ultimately show ?thesis
      using cr by (intro exI [of _ "n1 @ [PostIssue ?f]"] exI [of _ ?f]) simp
  next
    case plain
    then have "calls w' = calls w @ (n1 @ [PostIssue ?f])"
      by (simp add: send_def n1)
    moreover have "issue_posts (n1 @ [PostIssue ?f]) = [?f]" "issue_puts (n1 @ [PostIssue ?f]) = []"
      using n1 by (simp_all add: issue_posts_append issue_puts_append) (simp_all add: issue_posts_def issue_puts_def)
    ultimately show ?thesis
      using cr by (intro exI [of _ "n1 @ [PostIssue ?f]"] exI [of _ ?f]) simp
  next
    case (upd k)
    let ?new = "n1 @ [PostIssue ?f, PutIssue k (extraFieldsOf render ?m)]"
    from upd have "calls w' = calls w @ ?new"
      by (simp add: send_def n1)
    moreover have "issue_posts ?new = [?f]" "issue_puts ?new = [(k, extraFieldsOf render ?m)]"
      using n1 by (simp_all add: issue_posts_append issue_puts_append) (simp_all add: issue_posts_def issue_puts_def)
    ultimately show ?thesis
      using cr by (intro exI [of _ ?new] exI [of _ ?f]) simp
  qed
qed

lemma createSubtasks_trace:
  assumes "createSubtasks render T (ao_meta ai) pk sts keys w = ((err, keys'), w')"
  shows "\<exists>new n. calls w' = calls w @ new \<and> n \<le> length sts \<and> (err = None \<longrightarrow> n = length sts) \<and>
           list_all2 (creates ai) (issue_posts new) (take n sts) \<and>
           (\<forall>p\<in>set (issue_puts new). snd p = extraFieldsOf render (ao_meta ai))"
  using assms
proof (induction sts arbitrary: keys w)
  case Nil
  then have "calls w' = calls w @ []" and "err = None"
    by simp_all
  then show ?case
    by (intro exI [of _ "[]"] exI [of _ 0]) (simp add: issue_posts_def issue_puts_def)
next
  case (Cons st sts)
  let ?m = "ao_meta ai"
  obtain r w1 where one: "createOne render T ?m pk st w = (r, w1)"
    by (metis surj_pair)
  from createOne_trace [OF one] obtain new1 f
    where new1: "calls w1 = calls w @ new1" "issue_posts new1 = [f]" "creates ai f st"
      "\<forall>p\<in>set (issue_puts new1). snd p = extraFieldsOf render ?m"
    by blast
  show ?case
  proof (cases r)
    case (Inl e)
    with one Cons.prems have "w' = w1" and "err = Some e"
      by simp_all
    with new1 show ?thesis
      by (intro exI [of _ new1] exI [of _ 1]) simp
  next
    case (Inr k)
    let ?w2 = "addWatchers T k (m_watchers ?m) (transitionIfSet T (m_jiraStatus ?m) k w1)"
    from Inr one Cons.prems
    have rest: "createSubtasks render T ?m pk sts (keys @ [k]) ?w2 = ((err, keys'), w')"
      by simp
    have "quiet w1 ?w2"
      by (rule quiet_trans [OF quiet_transitionIfSet quiet_addWatchers])
    then obtain new2 where new2: "calls ?w2 = calls w1 @ new2" "issue_posts new2 = []" "issue_puts new2 = []"
      by (rule quietE)
    from Cons.IH [OF rest] obtain new3 n
      where new3: "calls w' = calls ?w2 @ new3" "n \<le> length sts" "err = None \<longrightarrow> n = length sts"
        "list_all2 (creates ai) (issue_posts new3) (take n sts)"
        "\<forall>p\<in>set (issue_puts new3). snd p = extraFieldsOf render ?m"
      by blast
    let ?new = "new1 @ new2 @ new3"
    have "calls w' = calls w @ ?new"
      using new1(1) new2(1) new3(1) by simp
    moreover have "issue_posts ?new = f # issue_posts new3"
      using new1(2) new2(2) by (simp add: issue_posts_append)
    moreover have "issue_puts ?new = issue_puts new1 @ issue_puts new3"
      using new2(3) by (simp add: issue_puts_append)
    ultimately show ?thesis
      using new1(3,4) new3(2-5)
      by (intro exI [of _ ?new] exI [of _ "Suc n"]) auto
  qed
qed

lemma creates_subtask_posts:
  "list_all2 (creates ai) (issue_posts new) sts \<Longrightarrow> subtask_posts new = issue_posts new"
  unfolding subtask_posts_def
  by (rule filter_True) (auto simp: list_all2_conv_all_nth in_set_conv_nth creates_def)

lemma resolveParent_trace:
  assumes "resolveParent T ai w = (x, w0)"
  shows "\<exists>new. calls w0 = calls w @ new \<and> issue_puts new = [] \<and>
           (if m_mode (ao_meta ai) = Create
            then \<exists>rest. new = PostIssue (parentFieldsFor ai) # rest \<and> issue_posts rest = []
            else issue_posts new = [])"
proof (cases "m_mode (ao_meta ai) = Create")
  case True
  let ?pf = "parentFieldsFor ai"
  let ?w1 = "send (PostIssue ?pf) w"
  have "w0 = ?w1 \<or> (\<exists>k. w0 = transitionIfSet T (m_jiraStatus (ao_meta ai)) k ?w1)"
    using assms True
    by (auto simp: resolveParent_def jiraCreateIssue_def parentFieldsFor_def Let_def split: sum.splits)
  then have "quiet ?w1 w0"
    using quiet_refl quiet_transitionIfSet by auto
  then obtain rest where rest: "calls w0 = calls ?w1 @ rest" "issue_posts rest = []" "issue_puts rest = []"
    by (rule quietE)
  then have "calls w0 = calls w @ (PostIssue ?pf # rest)"
    by (simp add: send_def)
  moreover have "issue_puts (PostIssue ?pf # rest) = []"
    using rest(3) by (simp add: issue_puts_def)
  ultimately show ?thesis
    using True rest(2) by (intro exI [of _ "PostIssue ?pf # rest"]) simp
next
  case False
  then have "w0 = transitionIfSet T (m_jiraStatus (ao_meta ai)) (m_parentKey (ao_meta ai)) w"
    using assms by (auto simp: resolveParent_def Let_def)
  then have "quiet w w0"
    by (simp add: quiet_transitionIfSet)
  then obtain new where "calls w0 = calls w @ new" "issue_posts new = []" "issue_puts new = []"
    by (rule quietE)
  with False show ?thesis
    by (intro exI [of _ new]) simp
qed

text \<open>
  The requests of a run, in the order they were sent: in create mode the creation of the
  parent comes first and every later creation is that of a subtask; in breakdown mode
  every creation is that of a subtask; the subtask creations are those of the first \<open>n\<close>
  subtasks in their order, all of them when the run ends well; every update carries the
  object \<^verbatim>\<open>extraFields\<close> of the run.
\<close>

lemma onConfirm_trace:
  assumes "onConfirm render T True (Some ai) w = (Some r, w')"
  shows "\<exists>new n. calls w' = calls w @ new \<and> n \<le> length (ao_subtasks ai) \<and>
           list_all2 (creates ai) (subtask_posts new) (take n (ao_subtasks ai)) \<and>
           (\<forall>pk keys. cr_outcome r = Shown pk keys \<longrightarrow> n = length (ao_subtasks ai)) \<and>
           (if m_mode (ao_meta ai) = Create
            then \<exists>rest. new = PostIssue (parentFieldsFor ai) # rest \<and> issue_posts rest = subtask_posts rest
            else issue_posts new = subtask_posts new) \<and>
           (\<forall>p\<in>set (issue_puts new). snd p = extraFieldsOf render (ao_meta ai))"
proof -
  obtain x w0 where rp: "resolveParent T ai w = (x, w0)"
    by (metis surj_pair)
  from resolveParent_trace [OF rp] obtain new0
    where new0: "calls w0 = calls w @ new0" "issue_puts new0 = []"
      "if m_mode (ao_meta ai) = Create
       then \<exists>rest. new0 = PostIssue (parentFieldsFor ai) # rest \<and> issue_posts rest = []
       else issue_posts new0 = []"
    by blast
  have noparent: "f_parent (parentFieldsFor ai) = None"
    by (simp add: parentFieldsFor_def parentFieldsOf_def)
  have sub0: "subtask_posts new0 = []"
    using new0(3) noparent
    by (auto simp: subtask_posts_def issue_posts_def split: if_splits)
  show ?thesis
  proof (cases x)
    case (Inl e)
    with rp assms have "w' = w0" and "r = \<lparr>cr_outcome = Failed e, cr_createdKeys = []\<rparr>"
      by (simp_all add: onConfirm_def)
    with new0 sub0 show ?thesis
      by (intro exI [of _ new0] exI [of _ 0])
         (auto simp: subtask_posts_def issue_posts_def split: if_splits)
  next
    case (Inr pkeys)
    obtain pk keys0 where pkeys: "pkeys = (pk, keys0)"
      by (cases pkeys)
    obtain err keys w1 where loop: "createSubtasks render T (ao_meta ai) pk (ao_subtasks ai) keys0 w0 = ((err, keys), w1)"
      by (metis surj_pair)
    from onConfirm_loop [OF rp [unfolded Inr pkeys] loop] assms
    have res: "r = \<lparr>cr_outcome = (case err of None \<Rightarrow> Shown pk keys | Some e \<Rightarrow> Failed e), cr_createdKeys = keys\<rparr>"
      and w': "w' = w1"
      by simp_all
    from createSubtasks_trace [OF loop] obtain new1 n
      where new1: "calls w1 = calls w0 @ new1" "n \<le> length (ao_subtasks ai)"
        "err = None \<longrightarrow> n = length (ao_subtasks ai)"
        "list_all2 (creates ai) (issue_posts new1) (take n (ao_subtasks ai))"
        "\<forall>p\<in>set (issue_puts new1). snd p = extraFieldsOf render (ao_meta ai)"
      by blast
    note sub1 = creates_subtask_posts [OF new1(4)]
    let ?new = "new0 @ new1"
    have c: "calls w' = calls w @ ?new"
      using new0(1) new1(1) w' by simp
    have subs: "subtask_posts ?new = issue_posts new1"
      using sub0 sub1 by (simp add: subtask_posts_def issue_posts_append)
    have shown: "n = length (ao_subtasks ai)" if "cr_outcome r = Shown pk' keys'" for pk' keys'
      using that res new1(3) by (cases err) simp_all
    have puts: "\<forall>p\<in>set (issue_puts ?new). snd p = extraFieldsOf render (ao_meta ai)"
      using new0(2) new1(5) by (simp add: issue_puts_append)
    have order: "if m_mode (ao_meta ai) = Create
       then \<exists>rest. ?new = PostIssue (parentFieldsFor ai) # rest \<and> issue_posts rest = subtask_posts rest
       else issue_posts ?new = subtask_posts ?new"
    proof (cases "m_mode (ao_meta ai) = Create")
      case True
      with new0(3) obtain rest0 where rest0: "new0 = PostIssue (parentFieldsFor ai) # rest0" "issue_posts rest0 = []"
        by auto
      have "?new = PostIssue (parentFieldsFor ai) # (rest0 @ new1)"
        using rest0(1) by simp
      moreover have "issue_posts (rest0 @ new1) = subtask_posts (rest0 @ new1)"
        using rest0(2) sub1 by (simp add: subtask_posts_def issue_posts_append)
      ultimately show ?thesis
        using True by auto
    next
      case False
      with new0(3) have "issue_posts new0 = []"
        by simp
      then have "issue_posts ?new = subtask_posts ?new"
        using sub1 by (simp add: subtask_posts_def issue_posts_append)
      with False show ?thesis
        by simp
    qed
    from c new1(2) new1(4) subs shown puts order show ?thesis
      by (intro exI [of _ ?new] exI [of _ n]) (simp add: subs)
  qed
qed

subsection \<open>Runs on the sample tracker\<close>

lemma sample_numbers:
  "sample_numberToString (JsFinite False 5 0) = ''5''"
  "sample_numberToString (JsFinite False 13 0) = ''13''"
  by code_simp+

lemmas run_defs = onConfirm_def resolveParent_def jiraCreateIssue_def parentFieldsOf_def
  transitionIfSet_def jiraTransition_def createOne_def jiraCreateSubtask_def resolveTypeName_def
  detectSubtaskTypeName_def cached_def metaSubtaskType_def remember_def send_def baseFieldsOf_def
  addWatchers_def jiraAddWatcher_def finish_def has_keys_def extraFieldsOf_def finalLabelsOf_def
  storyPointsOf_def js_truthy_def is_zero_def sample_tracker_def sample_output_def sample_meta_def
  fresh_def is_post_issue_def Let_def sample_lower sample_numbers

lemma sample_run_one:
  "fst (onConfirm sample_numberToString sample_tracker True (Some (sample_output\<lparr>ao_subtasks := [first_subtask]\<rparr>)) fresh) =
     Some \<lparr>cr_outcome = Shown ''KAN-1'' [''KAN-1'', ''KAN-10''], cr_createdKeys = [''KAN-1'', ''KAN-10'']\<rparr>"
  by (simp add: run_defs first_subtask_def)

lemma sample_run_none:
  "fst (onConfirm sample_numberToString sample_tracker True (Some (sample_output\<lparr>ao_subtasks := []\<rparr>)) fresh) =
     Some \<lparr>cr_outcome = Shown ''KAN-1'' [''KAN-1''], cr_createdKeys = [''KAN-1'']\<rparr>"
  by (simp add: run_defs)

lemma sample_run_two:
  "fst (onConfirm sample_numberToString sample_tracker True
         (Some (sample_output\<lparr>ao_subtasks := [first_subtask, last_subtask]\<rparr>)) fresh) =
     Some \<lparr>cr_outcome = Shown ''KAN-1'' [''KAN-1'', ''KAN-10'', ''KAN-100''],
            cr_createdKeys = [''KAN-1'', ''KAN-10'', ''KAN-100'']\<rparr>"
  by (simp add: run_defs first_subtask_def last_subtask_def)

theorem onConfirm_parent_failure_witness:
  "onConfirm sample_numberToString sample_tracker True (Some (sample_output\<lparr>ao_title := ''fail''\<rparr>)) fresh =
     (Some \<lparr>cr_outcome = Failed ''Jira error: refused'', cr_createdKeys = []\<rparr>,
      fresh\<lparr>calls := [PostIssue (parentFieldsFor (sample_output\<lparr>ao_title := ''fail''\<rparr>))]\<rparr>)"
proof -
  let ?ai = "sample_output\<lparr>ao_title := ''fail''\<rparr>"
  have m: "m_mode (ao_meta ?ai) = Create"
    by (simp add: sample_output_def sample_meta_def)
  have f: "post_issue sample_tracker (calls fresh) (parentFieldsFor ?ai) = Inl ''Jira error: refused''"
    by (simp add: sample_tracker_def parentFieldsFor_def parentFieldsOf_def)
  from onConfirm_parent_failure [OF m f] show ?thesis
    by (simp add: fresh_def)
qed

theorem onConfirm_partial_success_witness:
  "fst (onConfirm sample_numberToString sample_tracker True (Some sample_output) fresh) =
     Some \<lparr>cr_outcome = Failed ''Jira error: refused'', cr_createdKeys = [''KAN-1'', ''KAN-10'']\<rparr> \<and>
   (\<exists>r w' k. onConfirm sample_numberToString sample_tracker True (Some (sample_output\<lparr>ao_subtasks := [first_subtask]\<rparr>)) fresh =
        (Some r, w') \<and>
      cr_outcome r = Shown ''KAN-1'' [''KAN-1'', k] \<and>
      (\<forall>h x. put_issue sample_tracker h k x = Inl ''Jira error: Field not on screen''))"
proof -
  let ?failing = "\<lparr>st_title = ''fail'', st_description = [], st_acceptance_criteria = []\<rparr>"
  let ?third = "\<lparr>st_title = ''Store token'', st_description = [], st_acceptance_criteria = []\<rparr>"
  let ?m = "ao_meta sample_output"
  have sts: "ao_subtasks sample_output = [first_subtask] @ ?failing # [?third]"
    by (simp add: sample_output_def first_subtask_def)
  from sample_run_one obtain r1 w1
    where run1: "onConfirm sample_numberToString sample_tracker True (Some (sample_output\<lparr>ao_subtasks := [first_subtask]\<rparr>)) fresh =
        (Some r1, w1)"
      and r1: "r1 = \<lparr>cr_outcome = Shown ''KAN-1'' [''KAN-1'', ''KAN-10''], cr_createdKeys = [''KAN-1'', ''KAN-10'']\<rparr>"
    by (cases "onConfirm sample_numberToString sample_tracker True (Some (sample_output\<lparr>ao_subtasks := [first_subtask]\<rparr>)) fresh")
       simp
  from r1 have ok1: "cr_outcome r1 = Shown ''KAN-1'' [''KAN-1'', ''KAN-10'']"
    by simp
  obtain tn w2 where ty: "resolveTypeName sample_tracker (m_breakType ?m) (m_projectKey ?m) w1 = (tn, w2)"
    by (metis surj_pair)
  have refused: "post_issue sample_tracker (calls w2) (subtaskFieldsFor sample_output ''KAN-1'' ?failing tn) =
      Inl ''Jira error: refused''"
    by (simp add: sample_tracker_def subtaskFieldsFor_def baseFieldsOf_def)
  from onConfirm_partial_success [OF sts run1 ok1 ty] refused
  have "onConfirm sample_numberToString sample_tracker True (Some sample_output) fresh =
      (Some \<lparr>cr_outcome = Failed ''Jira error: refused'', cr_createdKeys = [''KAN-1'', ''KAN-10'']\<rparr>,
       w2\<lparr>calls := calls w2 @ [PostIssue (subtaskFieldsFor sample_output ''KAN-1'' ?failing tn)]\<rparr>)"
    by blast
  then have failed: "fst (onConfirm sample_numberToString sample_tracker True (Some sample_output) fresh) =
      Some \<lparr>cr_outcome = Failed ''Jira error: refused'', cr_createdKeys = [''KAN-1'', ''KAN-10'']\<rparr>"
    by simp
  let ?one = "sample_output\<lparr>ao_subtasks := [first_subtask]\<rparr>"
  have sts': "ao_subtasks ?one = [] @ first_subtask # []"
    by simp
  from sample_run_none obtain r0 w0
    where run0: "onConfirm sample_numberToString sample_tracker True (Some (?one\<lparr>ao_subtasks := []\<rparr>)) fresh = (Some r0, w0)"
      and r0: "r0 = \<lparr>cr_outcome = Shown ''KAN-1'' [''KAN-1''], cr_createdKeys = [''KAN-1'']\<rparr>"
    by (cases "onConfirm sample_numberToString sample_tracker True (Some (sample_output\<lparr>ao_subtasks := []\<rparr>)) fresh") simp
  from r0 have ok0: "cr_outcome r0 = Shown ''KAN-1'' [''KAN-1'']"
    by simp
  obtain tn' w2' where ty': "resolveTypeName sample_tracker (m_breakType (ao_meta ?one)) (m_projectKey (ao_meta ?one)) w0 =
      (tn', w2')"
    by (metis surj_pair)
  obtain k where created: "post_issue sample_tracker (calls w2') (subtaskFieldsFor ?one ''KAN-1'' first_subtask tn') = Inr k"
    by (simp add: sample_tracker_def subtaskFieldsFor_def baseFieldsOf_def first_subtask_def)
  from onConfirm_partial_success [OF sts' run0 ok0 ty'] created
  obtain r w' where "onConfirm sample_numberToString sample_tracker True (Some ?one) fresh = (Some r, w')"
    and "cr_outcome r = Shown ''KAN-1'' ([''KAN-1''] @ [k])"
    by blast
  moreover have "\<forall>h x. put_issue sample_tracker h k x = Inl ''Jira error: Field not on screen''"
    by (simp add: sample_tracker_def)
  ultimately have "\<exists>r w' k. onConfirm sample_numberToString sample_tracker True (Some ?one) fresh = (Some r, w') \<and>
      cr_outcome r = Shown ''KAN-1'' [''KAN-1'', k] \<and>
      (\<forall>h x. put_issue sample_tracker h k x = Inl ''Jira error: Field not on screen'')"
    by auto
  with failed show ?thesis
    by blast
qed

text \<open>
  The claim as the specification words it, that the keys created before the failure are
  reported, fails: in the run on the sample result the parent and the first subtask are
  created, the creation of the second subtask is refused, and the run shows the message
  of the error; the keys \<^verbatim>\<open>KAN-1\<close> and \<^verbatim>\<open>KAN-10\<close> are in the local array and are reported
  nowhere.
\<close>

theorem onConfirm_partial_success_counterexample:
  "fst (onConfirm sample_numberToString sample_tracker True (Some sample_output) fresh) =
     Some \<lparr>cr_outcome = Failed ''Jira error: refused'', cr_createdKeys = [''KAN-1'', ''KAN-10'']\<rparr> \<and>
   reportedKeys (Failed ''Jira error: refused'') = None"
  by (simp add: run_defs reportedKeys_def)

text \<open>
  Claim C4. The requests of a run are sent in this order: in create mode the first
  request of the run is the creation of the parent, and every later creation request is
  that of a subtask; in breakdown mode there is no creation of a parent. The creation
  requests of the subtasks are those of the first \<open>n\<close> subtasks of the generation result,
  in the order of the result, and of all of them when the run ends well.
\<close>

theorem onConfirm_call_order:
  assumes "onConfirm render T True (Some ai) w = (Some r, w')"
  shows "\<exists>new n. calls w' = calls w @ new \<and> n \<le> length (ao_subtasks ai) \<and>
           list_all2 (creates ai) (subtask_posts new) (take n (ao_subtasks ai)) \<and>
           (\<forall>pk keys. cr_outcome r = Shown pk keys \<longrightarrow> n = length (ao_subtasks ai)) \<and>
           (m_mode (ao_meta ai) = Create \<longrightarrow>
              (\<exists>rest. new = PostIssue (parentFieldsFor ai) # rest \<and> issue_posts rest = subtask_posts rest)) \<and>
           (m_mode (ao_meta ai) \<noteq> Create \<longrightarrow> issue_posts new = subtask_posts new)"
proof -
  from onConfirm_trace [OF assms] obtain new n
    where "calls w' = calls w @ new" and "n \<le> length (ao_subtasks ai)"
      and "list_all2 (creates ai) (subtask_posts new) (take n (ao_subtasks ai))"
      and "\<forall>pk keys. cr_outcome r = Shown pk keys \<longrightarrow> n = length (ao_subtasks ai)"
      and ord: "if m_mode (ao_meta ai) = Create
         then \<exists>rest. new = PostIssue (parentFieldsFor ai) # rest \<and> issue_posts rest = subtask_posts rest
         else issue_posts new = subtask_posts new"
    by blast
  moreover from ord have "m_mode (ao_meta ai) = Create \<longrightarrow>
      (\<exists>rest. new = PostIssue (parentFieldsFor ai) # rest \<and> issue_posts rest = subtask_posts rest)"
    by (simp split: if_splits)
  moreover from ord have "m_mode (ao_meta ai) \<noteq> Create \<longrightarrow> issue_posts new = subtask_posts new"
    by (simp split: if_splits)
  ultimately show ?thesis
    by blast
qed

theorem onConfirm_call_order_witness:
  "\<exists>new. calls (snd (onConfirm sample_numberToString sample_tracker True
                       (Some (sample_output\<lparr>ao_subtasks := [first_subtask, last_subtask]\<rparr>)) fresh)) =
       calls fresh @ new \<and>
     list_all2 (creates (sample_output\<lparr>ao_subtasks := [first_subtask, last_subtask]\<rparr>))
       (subtask_posts new) [first_subtask, last_subtask] \<and>
     (\<exists>rest. new = PostIssue (parentFieldsFor (sample_output\<lparr>ao_subtasks := [first_subtask, last_subtask]\<rparr>)) # rest \<and>
        issue_posts rest = subtask_posts rest)"
proof -
  let ?ai = "sample_output\<lparr>ao_subtasks := [first_subtask, last_subtask]\<rparr>"
  from sample_run_two obtain r w'
    where run: "onConfirm sample_numberToString sample_tracker True (Some ?ai) fresh = (Some r, w')"
      and r: "cr_outcome r = Shown ''KAN-1'' [''KAN-1'', ''KAN-10'', ''KAN-100'']"
    by (cases "onConfirm sample_numberToString sample_tracker True (Some ?ai) fresh") auto
  have m: "m_mode (ao_meta ?ai) = Create"
    by (simp add: sample_output_def sample_meta_def)
  from onConfirm_call_order [OF run] r m obtain new n
    where "calls w' = calls fresh @ new" and "n = length (ao_subtasks ?ai)"
      and "list_all2 (creates ?ai) (subtask_posts new) (take n (ao_subtasks ?ai))"
      and "\<exists>rest. new = PostIssue (parentFieldsFor ?ai) # rest \<and> issue_posts rest = subtask_posts rest"
    by blast
  with run show ?thesis
    by (intro exI [of _ new]) simp
qed



end
